theory Spec2Isabelle
  imports Complex_Main "HOL-Library.Sublist"
begin

section \<open>Data model\<close>

text \<open>
  The two Go files of package \<open>deploy\<close> are embedded: the provider registry
  (\<open>src/build/compose/util.sh\<close>, from its second part on) and the step generator
  (\<open>src/pkg/resource/deploy/step_generator.go\<close>). Types that the package imports
  (\<open>resource\<close>, \<open>plugin\<close>, \<open>tokens\<close>, \<open>config\<close>, \<open>semver\<close>) are declared
  outside \<open>src/\<close>; they are given here with the fields the two files read and write.
\<close>

type_synonym urn = string
type_synonym type_token = string
type_synonym package = string
type_synonym property_key = string
type_synonym resource_id = string

text \<open>
  Modelled from the spec: \<open>resource.PropertyValue\<close> is declared outside \<open>src/\<close>. The spec
  lists its tags: absent, boolean, number, string, array, nested map, asset, archive and
  the computed (unknown) marker.
\<close>

datatype property_value =
    PNull
  | PBool bool
  | PNumber real
  | PString string
  | PArray "property_value list"
  | PObject "(property_key \<times> property_value) list"
  | PAsset string
  | PArchive string
  | PComputed

text \<open>
  A Go \<open>resource.PropertyMap\<close> is a map that may be \<open>nil\<close>. \<open>None\<close> is the nil map;
  \<open>Some kvs\<close> lists the entries in the order in which \<open>range\<close> visits them (Go leaves
  that order open, so every statement below holds for each order).
\<close>

type_synonym property_map = "(property_key \<times> property_value) list option"

definition entries :: "property_map \<Rightarrow> (property_key \<times> property_value) list" where
  "entries m = (case m of None \<Rightarrow> [] | Some kvs \<Rightarrow> kvs)"

definition index :: "property_map \<Rightarrow> property_key \<Rightarrow> property_value option" where
  \<comment> \<open>the two-valued read \<open>v, ok := m[k]\<close>\<close>
  "index m k = map_of (entries m) k"

text \<open>\<open>semver.Version\<close> and \<open>workspace.PluginInfo\<close>, with the fields their packages give them.\<close>

record version =
  Major :: nat
  Minor :: nat
  Patch :: nat
  Pre :: "string list"
  Build :: "string list"

definition zero_version :: version where
  "zero_version = \<lparr>Major = 0, Minor = 0, Patch = 0, Pre = [], Build = []\<rparr>"

record plugin_info =
  info_Name :: string
  info_Kind :: string
  info_Version :: "version option"

record check_failure =
  Property :: property_key
  Reason :: string

record analyze_failure =
  af_Property :: property_key
  af_Reason :: string

text \<open>
  Modelled from the spec: \<open>plugin.DiffChanges\<close> and \<open>plugin.DiffResult\<close> are declared outside
  \<open>src/\<close>. The indicator is an integer type (the generator prints it with \<open>%d\<close>) with the
  three states the spec names; \<open>DiffOther\<close> stands for any integer that is none of them, which
  a plugin can still send.
\<close>

datatype DiffChanges = DiffUnknown | DiffNone | DiffSome | DiffOther int

record DiffResult =
  Changes :: DiffChanges
  ReplaceKeys :: "property_key list"
  StableKeys :: "property_key list"
  DeleteBeforeReplace :: bool

definition zero_DiffResult :: DiffResult where
  \<comment> \<open>the composite literal \<open>plugin.DiffResult{}\<close>: \<open>DiffUnknown\<close> is the zero value\<close>
  "zero_DiffResult =
     \<lparr>Changes = DiffUnknown, ReplaceKeys = [], StableKeys = [], DeleteBeforeReplace = False\<rparr>"

text \<open>
  Modelled from the spec: the method \<open>DiffResult.Replace\<close> is declared outside \<open>src/\<close>. The
  spec calls it the derived replace-required decision, beside the set of keys that forced
  replacement: a diff requires replacement when that set is not empty.
\<close>

definition Replace :: "DiffResult \<Rightarrow> bool" where
  "Replace d = (ReplaceKeys d \<noteq> [])"

text \<open>
  Errors are values. \<open>New\<close> is \<open>errors.New\<close>; \<open>Errorf\<close> keeps the format string and its
  arguments apart, so no \<open>%d\<close> has to be printed. Errors of plugins and of the host are
  values of the same type, chosen by them.
\<close>

datatype fmt_arg = ArgString string | ArgChanges DiffChanges

datatype error = New string | Errorf string "fmt_arg list"

definition ErrMissingProvider :: error where
  "ErrMissingProvider = New ''provider not found''"

text \<open>
  Modelled from the spec: \<open>contract.Assert\<close> and \<open>contract.Fail\<close> are declared outside
  \<open>src/\<close>. The spec has the operations that call \<open>Fail\<close> fail fatally and a failed \<open>Assert\<close>
  be an internal consistency violation: both stop the program (a panic), and what follows
  them in the function is not run.
\<close>

datatype 'a outcome = Panics | Returns 'a

definition contract_Assert :: "bool \<Rightarrow> 'a outcome \<Rightarrow> 'a outcome" where
  "contract_Assert cond rest = (if cond then rest else Panics)"

definition contract_Fail :: "'a outcome \<Rightarrow> 'a outcome" where
  "contract_Fail rest = Panics"

section \<open>Plugins and the plugin host\<close>

text \<open>
  A real plugin is known by the handle the host gave out. What a plugin or the host
  answers is not code of this repository: the answers are the fields of \<open>host\<close>, and every
  function below takes them as a parameter. The calls made are appended to a list, so
  that a theorem can say that a call was or was not made.
\<close>

type_synonym handle = nat
type_synonym config_key = "string \<times> string"
type_synonym config_map = "config_key \<rightharpoonup> string"

record shimProvider =
  shim_pkg :: package
  shim_info :: plugin_info

datatype Provider = Plugin handle | Shim shimProvider

datatype call =
    CallHostProvider package "version option"
  | CallHostCloseProvider handle
  | CallHostAnalyzer string
  | CallPlanProvider package
  | CallConfigure handle config_map
  | CallGetPluginInfo handle
  | CallCheck Provider urn property_map property_map bool
  | CallDiff Provider urn resource_id property_map property_map bool
  | CallAnalyze handle type_token property_map

record host =
  host_Provider :: "package \<Rightarrow> version option \<Rightarrow> error + handle"
  host_CloseProvider :: "handle \<Rightarrow> error option"
  host_Analyzer :: "string \<Rightarrow> error + handle option"
  plugin_Configure :: "handle \<Rightarrow> config_map \<Rightarrow> error option"
  plugin_GetPluginInfo :: "handle \<Rightarrow> error + plugin_info"
  plugin_Check :: "handle \<Rightarrow> urn \<Rightarrow> property_map \<Rightarrow> property_map \<Rightarrow> bool
                     \<Rightarrow> error + property_map \<times> check_failure list"
  plugin_Diff :: "handle \<Rightarrow> urn \<Rightarrow> resource_id \<Rightarrow> property_map \<Rightarrow> property_map \<Rightarrow> bool
                     \<Rightarrow> error + DiffResult"
  analyzer_Analyze :: "handle \<Rightarrow> type_token \<Rightarrow> property_map \<Rightarrow> error + analyze_failure list"

text \<open>
  Functions of the packages \<open>tokens\<close>, \<open>resource\<close> and \<open>semver\<close> that the two files call.
  \<open>ParseTolerant\<close> returns the text of its error on the left.
\<close>

record library =
  NewURN :: "string \<Rightarrow> string \<Rightarrow> type_token \<Rightarrow> type_token \<Rightarrow> string \<Rightarrow> urn"
  urn_Type :: "urn \<Rightarrow> type_token"
  urn_QualifiedType :: "urn \<Rightarrow> type_token"
  urn_Name :: "urn \<Rightarrow> string"
  type_Name :: "type_token \<Rightarrow> string"
  type_Package :: "type_token \<Rightarrow> package"
  RootStackType :: type_token
  DeepEquals :: "property_map \<Rightarrow> property_map \<Rightarrow> bool"
  ParseTolerant :: "string \<Rightarrow> string + version"

section \<open>The shim provider\<close>

text \<open>\<open>resource.Status\<close> has the one value the file uses.\<close>

datatype status = StatusOK

definition shim_Pkg :: "shimProvider \<Rightarrow> package" where
  "shim_Pkg p = shim_pkg p"

definition shim_Configure :: "shimProvider \<Rightarrow> config_map \<Rightarrow> error option outcome" where
  "shim_Configure p props =
     contract_Fail (Returns (Some (New ''the shimProvider is not configurable'')))"

definition shim_Check ::
  "shimProvider \<Rightarrow> urn \<Rightarrow> property_map \<Rightarrow> property_map \<Rightarrow> bool
    \<Rightarrow> error + property_map \<times> check_failure list" where
  "shim_Check p u olds news allowUnknowns = Inr (news, [])"

definition shim_Diff ::
  "shimProvider \<Rightarrow> urn \<Rightarrow> resource_id \<Rightarrow> property_map \<Rightarrow> property_map \<Rightarrow> bool
    \<Rightarrow> error + DiffResult" where
  "shim_Diff p u i olds news allowUnknowns = Inr (zero_DiffResult\<lparr>Changes := DiffUnknown\<rparr>)"

definition shim_Create ::
  "shimProvider \<Rightarrow> urn \<Rightarrow> property_map
    \<Rightarrow> (resource_id \<times> property_map \<times> status \<times> error option) outcome" where
  "shim_Create p u news =
     contract_Fail
       (Returns ('''', None, StatusOK, Some (New ''the shimProvider cannot perform CRUD operations'')))"

definition shim_Read ::
  "shimProvider \<Rightarrow> urn \<Rightarrow> resource_id \<Rightarrow> property_map \<Rightarrow> property_map \<times> error option" where
  "shim_Read p u i props = (Some [], None)"

definition shim_Update ::
  "shimProvider \<Rightarrow> urn \<Rightarrow> resource_id \<Rightarrow> property_map \<Rightarrow> property_map
    \<Rightarrow> (property_map \<times> status \<times> error option) outcome" where
  "shim_Update p u i olds news =
     contract_Fail
       (Returns (None, StatusOK, Some (New ''the shimProvider cannot perform CRUD operations'')))"

definition shim_Delete ::
  "shimProvider \<Rightarrow> urn \<Rightarrow> resource_id \<Rightarrow> property_map \<Rightarrow> (status \<times> error option) outcome" where
  "shim_Delete p u i props =
     contract_Fail
       (Returns (StatusOK, Some (New ''the shimProvider cannot perform CRUD operations'')))"

definition shim_GetPluginInfo :: "shimProvider \<Rightarrow> plugin_info \<times> error option" where
  "shim_GetPluginInfo p = (shim_info p, None)"

section \<open>Loading a provider\<close>

definition loadProviderRaw ::
  "host \<Rightarrow> package \<Rightarrow> version option \<Rightarrow> config_map \<Rightarrow> call list
    \<Rightarrow> (error + handle) \<times> call list" where
  "loadProviderRaw H pkg ver cfg tr =
     (case host_Provider H pkg ver of
        Inl err \<Rightarrow> (Inl err, tr @ [CallHostProvider pkg ver])
      | Inr provider \<Rightarrow>
          (case plugin_Configure H provider cfg of
             Some err \<Rightarrow>
               (Inl err,
                tr @ [CallHostProvider pkg ver, CallConfigure provider cfg,
                      CallHostCloseProvider provider])
           | None \<Rightarrow>
               (Inr provider, tr @ [CallHostProvider pkg ver, CallConfigure provider cfg])))"

text \<open>
  The first block of \<open>loadProvider\<close>: the requested version. After a parse error the Go
  code still stores the address of the zero \<open>sv\<close>.
\<close>

definition requestedVersion ::
  "library \<Rightarrow> property_map \<Rightarrow> check_failure list \<times> version option" where
  "requestedVersion L properties =
     (case index properties ''version'' of
        None \<Rightarrow> ([], None)
      | Some versionProp \<Rightarrow>
          (case versionProp of
             PString s \<Rightarrow>
               (case ParseTolerant L s of
                  Inl err \<Rightarrow>
                    ([\<lparr>Property = ''version'',
                       Reason = ''could not parse provider version: '' @ err\<rparr>],
                     Some zero_version)
                | Inr sv \<Rightarrow> ([], Some sv))
           | _ \<Rightarrow>
               ([\<lparr>Property = ''version'', Reason = '''version' must be a string''\<rparr>], None)))"

text \<open>
  The loop over the properties, one equation per iteration; the accumulator holds
  \<open>failures\<close>, \<open>useShim\<close> and \<open>cfg\<close>. \<open>config.MustMakeKey\<close> pairs the namespace with the name.
\<close>

fun convertProperties ::
  "library \<Rightarrow> urn \<Rightarrow> bool \<Rightarrow> (property_key \<times> property_value) list
    \<Rightarrow> check_failure list \<times> bool \<times> config_map \<Rightarrow> check_failure list \<times> bool \<times> config_map" where
  "convertProperties L u allowUnknowns [] acc = acc"
| "convertProperties L u allowUnknowns ((k, v) # rest) (failures, useShim, cfg) =
     (if k = ''version'' then convertProperties L u allowUnknowns rest (failures, useShim, cfg)
      else
        (case v of
           PComputed \<Rightarrow>
             (if \<not> allowUnknowns then
                convertProperties L u allowUnknowns rest
                  (failures @ [\<lparr>Property = k, Reason = ''provider properties must not be unknown''\<rparr>],
                   useShim, cfg)
              else convertProperties L u allowUnknowns rest (failures, True, cfg))
         | PString s \<Rightarrow>
             convertProperties L u allowUnknowns rest
               (failures, useShim, cfg((type_Name L (urn_Type L u), k) \<mapsto> s))
         | _ \<Rightarrow>
             convertProperties L u allowUnknowns rest
               (failures @ [\<lparr>Property = k, Reason = ''provider property values must be strings''\<rparr>],
                useShim, cfg)))"

definition loadProvider ::
  "library \<Rightarrow> host \<Rightarrow> urn \<Rightarrow> property_map \<Rightarrow> bool \<Rightarrow> call list
    \<Rightarrow> (Provider option \<times> check_failure list \<times> error option) \<times> call list" where
  "loadProvider L H u properties allowUnknowns tr =
     (let (failures0, ver) = requestedVersion L properties;
          (failures, useShim, cfg) =
            convertProperties L u allowUnknowns (entries properties) (failures0, False, Map.empty)
      in if failures \<noteq> [] then ((None, failures, None), tr)
         else
           (let pkg = type_Name L (urn_Type L u)
            in if \<not> useShim then
                 (case loadProviderRaw H pkg ver cfg tr of
                    (Inl err, tr') \<Rightarrow> ((None, [], Some err), tr')
                  | (Inr provider, tr') \<Rightarrow> ((Some (Plugin provider), [], None), tr'))
               else
                 (case host_Provider H pkg ver of
                    Inl err \<Rightarrow> ((None, [], Some err), tr @ [CallHostProvider pkg ver])
                  | Inr provider \<Rightarrow>
                      (let tr' = tr @ [CallHostProvider pkg ver, CallGetPluginInfo provider,
                                       CallHostCloseProvider provider]
                       in case plugin_GetPluginInfo H provider of
                            Inl err \<Rightarrow> ((None, [], Some err), tr')
                          | Inr info \<Rightarrow>
                              ((Some (Shim \<lparr>shim_pkg = pkg, shim_info = info\<rparr>), [], None), tr')))))"

section \<open>The provider registry\<close>

record providerRecord =
  rec_properties :: property_map
  rec_provider :: "Provider option"

record providerLoadResponse =
  resp_provider :: "Provider option"
  resp_failures :: "check_failure list"
  resp_err :: "error option"

record providerLoadRequest =
  req_urn :: urn
  req_properties :: property_map
  req_allowUnknowns :: bool

text \<open>
  The loader owns the table \<open>providers\<close>; \<open>host_calls\<close> is the list of calls made on the host
  and its plugins so far.
\<close>

record providerLoader =
  providers :: "urn \<rightharpoonup> providerRecord"
  host_calls :: "call list"

definition newProviderLoader :: providerLoader where
  "newProviderLoader = \<lparr>providers = Map.empty, host_calls = []\<rparr>"

text \<open>
  One iteration of the loop of \<open>serve\<close>: the request taken from the channel, the response
  sent back. \<open>Copy\<close> of a property map is the same map.
\<close>

definition serve_request ::
  "library \<Rightarrow> host \<Rightarrow> providerLoadRequest \<Rightarrow> providerLoader
    \<Rightarrow> (providerLoadResponse \<times> providerLoader) outcome" where
  "serve_request L H req p =
     (case req_properties req of
        None \<Rightarrow>
          (case providers p (req_urn req) of
             None \<Rightarrow>
               Returns (\<lparr>resp_provider = None, resp_failures = [],
                          resp_err = Some ErrMissingProvider\<rparr>, p)
           | Some record \<Rightarrow>
               Returns (\<lparr>resp_provider = rec_provider record, resp_failures = [],
                          resp_err = None\<rparr>, p))
      | Some kvs \<Rightarrow>
          contract_Assert (providers p (req_urn req) = None)
            (case loadProvider L H (req_urn req) (req_properties req) (req_allowUnknowns req)
                    (host_calls p) of
               ((provider, failures, err), tr') \<Rightarrow>
                 Returns
                   (\<lparr>resp_provider = provider, resp_failures = failures, resp_err = err\<rparr>,
                    (if failures = [] \<and> err = None then
                       p\<lparr>providers := (providers p)(req_urn req \<mapsto>
                            \<lparr>rec_properties = req_properties req, rec_provider = provider\<rparr>),
                          host_calls := tr'\<rparr>
                     else p\<lparr>host_calls := tr'\<rparr>))))"

text \<open>The loop of \<open>serve\<close> over the requests that arrive, with the responses it sends.\<close>

fun serve ::
  "library \<Rightarrow> host \<Rightarrow> providerLoadRequest list \<Rightarrow> providerLoader
    \<Rightarrow> (providerLoadResponse list \<times> providerLoader) outcome" where
  "serve L H [] p = Returns ([], p)"
| "serve L H (req # requests) p =
     (case serve_request L H req p of
        Panics \<Rightarrow> Panics
      | Returns (resp, p') \<Rightarrow>
          (case serve L H requests p' of
             Panics \<Rightarrow> Panics
           | Returns (resps, p'') \<Rightarrow> Returns (resp # resps, p'')))"

text \<open>
  The meta provider sends one request and waits for its response; \<open>getProvider\<close> is the
  request with no properties.
\<close>

definition metaProvider_loadProvider ::
  "library \<Rightarrow> host \<Rightarrow> urn \<Rightarrow> property_map \<Rightarrow> bool \<Rightarrow> providerLoader
    \<Rightarrow> ((Provider option \<times> check_failure list \<times> error option) \<times> providerLoader) outcome" where
  "metaProvider_loadProvider L H u properties allowUnknowns p =
     (case serve_request L H
             \<lparr>req_urn = u, req_properties = properties, req_allowUnknowns = allowUnknowns\<rparr> p of
        Panics \<Rightarrow> Panics
      | Returns (response, p') \<Rightarrow>
          Returns ((resp_provider response, resp_failures response, resp_err response), p'))"

definition getProvider ::
  "library \<Rightarrow> host \<Rightarrow> urn \<Rightarrow> providerLoader
    \<Rightarrow> ((Provider option \<times> error option) \<times> providerLoader) outcome" where
  "getProvider L H u p =
     (case metaProvider_loadProvider L H u None False p of
        Panics \<Rightarrow> Panics
      | Returns ((provider, _, err), p') \<Rightarrow> Returns ((provider, err), p'))"

section \<open>The step generator: data\<close>

text \<open>
  Modelled from the spec: \<open>resource.State\<close>, \<open>resource.NewState\<close> and \<open>resource.Goal\<close> are
  declared outside \<open>src/\<close>. A state has the fields the spec lists, in the order of the
  arguments of \<open>NewState\<close>, which stores them (the last is the list the spec calls excluded
  properties); a goal has the fields the generator reads.
\<close>

record State =
  Type :: type_token
  URN :: urn
  Custom :: bool
  Delete :: bool
  ID :: resource_id
  Inputs :: property_map
  Outputs :: property_map
  Parent :: urn
  Protect :: bool
  Dependencies :: "urn list"
  Excluded :: "string list"

definition NewState ::
  "type_token \<Rightarrow> urn \<Rightarrow> bool \<Rightarrow> bool \<Rightarrow> resource_id \<Rightarrow> property_map \<Rightarrow> property_map
    \<Rightarrow> urn \<Rightarrow> bool \<Rightarrow> urn list \<Rightarrow> string list \<Rightarrow> State" where
  "NewState t u custom del i inputs outputs parent protect dependencies excluded =
     \<lparr>Type = t, URN = u, Custom = custom, Delete = del, ID = i, Inputs = inputs,
      Outputs = outputs, Parent = parent, Protect = protect, Dependencies = dependencies,
      Excluded = excluded\<rparr>"

record goal =
  gType :: type_token
  gName :: string
  gCustom :: bool
  gProperties :: property_map
  gParent :: urn
  gProtect :: bool
  gDependencies :: "urn list"

record RegisterResourceEvent =
  Goal :: goal

text \<open>
  Modelled from the spec: the step constructors are declared outside \<open>src/\<close>. A step is its
  tag (Same, Create, Update, Replace, CreateReplacement, Delete, DeleteReplacement) with the
  arguments the constructor is given, the plan left out.
\<close>

datatype Step =
    NewSameStep RegisterResourceEvent State State
  | NewCreateStep RegisterResourceEvent State
  | NewUpdateStep RegisterResourceEvent State State "property_key list"
  | NewReplaceStep State State "property_key list" bool
  | NewCreateReplacementStep RegisterResourceEvent State State "property_key list" bool
  | NewDeleteStep State
  | NewDeleteReplacementStep State bool

text \<open>The messages sent to the diagnostics sink: the template with its arguments.\<close>

datatype diag =
    DuplicateResourceURNError urn
  | ResourcePropertyInvalidValueError urn type_token string property_key
      "property_value option" string
  | ResourceInvalidError urn type_token string string
  | AnalyzeResourceFailureError urn string property_key string

text \<open>
  What the generator reads from its plan. \<open>prev\<close> is the list \<open>prev.Resources\<close> of the
  previous snapshot, \<open>depGraph\<close> its method \<open>DependingOn\<close>; both may be nil.
\<close>

record Plan =
  Target_Name :: string
  Project :: string
  Olds :: "urn \<rightharpoonup> State"
  prev :: "State list option"
  preview :: bool
  IsRefresh :: bool
  analyzers :: "string list"
  depGraph :: "(State \<Rightarrow> State list) option"
  plan_Provider :: "package \<Rightarrow> error + Provider option"

text \<open>
  The six sets of the generator are Go maps to \<open>bool\<close>. \<open>sink\<close> is what was sent to the
  plan's diagnostics sink and \<open>trace\<close> the calls made on plugins so far.
\<close>

record stepGenerator =
  urns :: "urn \<rightharpoonup> bool"
  deletes :: "urn \<rightharpoonup> bool"
  replaces :: "urn \<rightharpoonup> bool"
  updates :: "urn \<rightharpoonup> bool"
  creates :: "urn \<rightharpoonup> bool"
  sames :: "urn \<rightharpoonup> bool"
  sink :: "diag list"
  trace :: "call list"

definition newStepGenerator :: stepGenerator where
  "newStepGenerator =
     \<lparr>urns = Map.empty, deletes = Map.empty, replaces = Map.empty, updates = Map.empty,
      creates = Map.empty, sames = Map.empty, sink = [], trace = []\<rparr>"

definition flag :: "(urn \<rightharpoonup> bool) \<Rightarrow> urn \<Rightarrow> bool" where
  \<comment> \<open>the read \<open>m[urn]\<close> of a \<open>map[URN]bool\<close>: false for a missing key\<close>
  "flag m u = (m u = Some True)"

text \<open>A call on the \<open>plugin.Provider\<close> interface goes to the plugin or to the shim.\<close>

definition Provider_Check ::
  "host \<Rightarrow> Provider \<Rightarrow> urn \<Rightarrow> property_map \<Rightarrow> property_map \<Rightarrow> bool
    \<Rightarrow> error + property_map \<times> check_failure list" where
  "Provider_Check H prov u olds news allowUnknowns =
     (case prov of
        Plugin h \<Rightarrow> plugin_Check H h u olds news allowUnknowns
      | Shim p \<Rightarrow> shim_Check p u olds news allowUnknowns)"

definition Provider_Diff ::
  "host \<Rightarrow> Provider \<Rightarrow> urn \<Rightarrow> resource_id \<Rightarrow> property_map \<Rightarrow> property_map \<Rightarrow> bool
    \<Rightarrow> error + DiffResult" where
  "Provider_Diff H prov u i olds news allowUnknowns =
     (case prov of
        Plugin h \<Rightarrow> plugin_Diff H h u i olds news allowUnknowns
      | Shim p \<Rightarrow> shim_Diff p u i olds news allowUnknowns)"

section \<open>The step generator: helpers\<close>

definition generateURN :: "library \<Rightarrow> Plan \<Rightarrow> RegisterResourceEvent \<Rightarrow> urn" where
  "generateURN L P e =
     (let goal = Goal e;
          p = gParent goal;
          parentType = (if p \<noteq> '''' \<and> urn_Type L p \<noteq> RootStackType L
                        then urn_QualifiedType L p else '''')
      in NewURN L (Target_Name P) (Project P) parentType (gType goal) (gName goal))"

definition getResourcePropertyStates ::
  "Plan \<Rightarrow> urn \<Rightarrow> goal \<Rightarrow> property_map \<times> property_map \<times> property_map \<times> State" where
  "getResourcePropertyStates P u goal =
     (let props = gProperties goal;
          inputs = (if IsRefresh P
                    then (case Olds P u of Some old \<Rightarrow> Inputs old | None \<Rightarrow> None)
                    else props);
          outputs = (if IsRefresh P then props else None)
      in (props, inputs, outputs,
          NewState (gType goal) u (gCustom goal) False '''' inputs outputs (gParent goal)
            (gProtect goal) (gDependencies goal) []))"

definition issueCheckErrors ::
  "library \<Rightarrow> State \<Rightarrow> urn \<Rightarrow> check_failure list \<Rightarrow> stepGenerator \<Rightarrow> bool \<times> stepGenerator" where
  "issueCheckErrors L new u failures sg =
     (if failures = [] then (False, sg)
      else
        (True,
         sg\<lparr>sink := sink sg @
               map (\<lambda>failure.
                      if Property failure \<noteq> '''' then
                        ResourcePropertyInvalidValueError u (Type new) (urn_Name L u)
                          (Property failure) (index (Inputs new) (Property failure))
                          (Reason failure)
                      else ResourceInvalidError u (Type new) (urn_Name L u) (Reason failure))
                   failures\<rparr>))"

definition provider ::
  "library \<Rightarrow> Plan \<Rightarrow> type_token \<Rightarrow> stepGenerator \<Rightarrow> (error + Provider) \<times> stepGenerator" where
  "provider L P t sg =
     (let pkg = type_Package L t;
          sg' = sg\<lparr>trace := trace sg @ [CallPlanProvider pkg]\<rparr>
      in case plan_Provider P pkg of
           Inl err \<Rightarrow> (Inl err, sg')
         | Inr None \<Rightarrow>
             (Inl (Errorf ''could not load resource provider for package '%v' from $PATH''
                     [ArgString pkg]), sg')
         | Inr (Some prov) \<Rightarrow> (Inr prov, sg'))"

definition diff ::
  "library \<Rightarrow> host \<Rightarrow> urn \<Rightarrow> resource_id \<Rightarrow> property_map \<Rightarrow> property_map \<Rightarrow> property_map
    \<Rightarrow> property_map \<Rightarrow> property_map \<Rightarrow> Provider option \<Rightarrow> bool \<Rightarrow> bool \<Rightarrow> call list
    \<Rightarrow> (error + DiffResult) \<times> call list" where
  "diff L H u i oldInputs oldOutputs newInputs newOutputs newProps prov refresh allowUnknowns tr =
     (let hasChanges = (if refresh then \<not> DeepEquals L oldOutputs newOutputs
                        else \<not> DeepEquals L oldInputs newInputs)
      in if \<not> hasChanges then (Inr (zero_DiffResult\<lparr>Changes := DiffNone\<rparr>), tr)
         else
           (case prov of
              None \<Rightarrow> (Inr (zero_DiffResult\<lparr>Changes := DiffSome\<rparr>), tr)
            | Some pr \<Rightarrow>
                (case Provider_Diff H pr u i oldOutputs newProps allowUnknowns of
                   Inl err \<Rightarrow>
                     (Inl err, tr @ [CallDiff pr u i oldOutputs newProps allowUnknowns])
                 | Inr d \<Rightarrow>
                     (Inr (if Changes d = DiffUnknown then d\<lparr>Changes := DiffSome\<rparr> else d),
                      tr @ [CallDiff pr u i oldOutputs newProps allowUnknowns]))))"

section \<open>The step generator: GenerateSteps\<close>

text \<open>
  \<open>GenerateSteps\<close> is given in two halves. \<open>GenerateSteps_validate\<close> is the function up to
  the check of \<open>invalid\<close>: it ends with a hard error, with the validation error, or with the
  locals the second half needs. \<open>GenerateSteps_dispatch\<close> is the three cases that follow. The
  locals \<open>goal\<close>, \<open>urn\<close>, \<open>old\<close>, \<open>refresh\<close> and \<open>allowUnknowns\<close> depend on the plan and the
  event only, and each half computes them. A returned error comes with the generator as the
  call left it: what was sent to the sink or written to a set stays.
\<close>

text \<open>The call of \<open>Check\<close> with its two uses of the result.\<close>

definition GenerateSteps_check ::
  "library \<Rightarrow> host \<Rightarrow> urn \<Rightarrow> goal \<Rightarrow> property_map \<Rightarrow> Provider option \<Rightarrow> bool \<Rightarrow> bool \<Rightarrow> bool
    \<Rightarrow> property_map \<times> property_map \<times> State \<times> bool \<Rightarrow> stepGenerator
    \<Rightarrow> error \<times> stepGenerator + (property_map \<times> property_map \<times> State \<times> bool) \<times> stepGenerator" where
  "GenerateSteps_check L H u goal oldInputs prov refresh allowUnknowns recreating locals sg =
     (case locals of (props, inputs, new, invalid) \<Rightarrow>
        (case prov of
           None \<Rightarrow> Inr ((props, inputs, new, invalid), sg)
         | Some pr \<Rightarrow>
             (if refresh then Inr ((props, inputs, new, invalid), sg)
              else
                (let olds = (if recreating then None else oldInputs);
                     news = (if recreating then gProperties goal else inputs);
                     sg1 = sg\<lparr>trace := trace sg @ [CallCheck pr u olds news allowUnknowns]\<rparr>
                 in case Provider_Check H pr u olds news allowUnknowns of
                      Inl err \<Rightarrow> Inl (err, sg1)
                    | Inr (inputs', failures) \<Rightarrow>
                        (case issueCheckErrors L new u failures sg1 of
                           (bad, sg2) \<Rightarrow>
                             Inr ((inputs', inputs', new\<lparr>Inputs := inputs'\<rparr>, invalid \<or> bad),
                                  sg2))))))"

text \<open>The loop over the analyzers of the plan.\<close>

fun runAnalyzers ::
  "host \<Rightarrow> urn \<Rightarrow> State \<Rightarrow> property_map \<Rightarrow> string list \<Rightarrow> bool \<times> stepGenerator
    \<Rightarrow> error \<times> stepGenerator + bool \<times> stepGenerator" where
  "runAnalyzers H u new props [] acc = Inr acc"
| "runAnalyzers H u new props (a # rest) (invalid, sg) =
     (case host_Analyzer H a of
        Inl err \<Rightarrow> Inl (err, sg\<lparr>trace := trace sg @ [CallHostAnalyzer a]\<rparr>)
      | Inr None \<Rightarrow>
          Inl (Errorf ''analyzer '%v' could not be loaded from your $PATH'' [ArgString a],
               sg\<lparr>trace := trace sg @ [CallHostAnalyzer a]\<rparr>)
      | Inr (Some analyzer) \<Rightarrow>
          (case analyzer_Analyze H analyzer (Type new) props of
             Inl err \<Rightarrow>
               Inl (err, sg\<lparr>trace := trace sg @ [CallHostAnalyzer a,
                                                   CallAnalyze analyzer (Type new) props]\<rparr>)
           | Inr failures \<Rightarrow>
               runAnalyzers H u new props rest
                 (invalid \<or> failures \<noteq> [],
                  sg\<lparr>trace := trace sg @ [CallHostAnalyzer a,
                                           CallAnalyze analyzer (Type new) props],
                     sink := sink sg @
                       map (\<lambda>failure. AnalyzeResourceFailureError u a (af_Property failure)
                                         (af_Reason failure)) failures\<rparr>)))"

definition GenerateSteps_validate ::
  "library \<Rightarrow> host \<Rightarrow> Plan \<Rightarrow> RegisterResourceEvent \<Rightarrow> stepGenerator
    \<Rightarrow> error \<times> stepGenerator
      + property_map \<times> property_map \<times> property_map \<times> State \<times> Provider option \<times> bool
        \<times> stepGenerator" where
  "GenerateSteps_validate L H P event sg =
     (let goal = Goal event;
          u = generateURN L P event;
          invalid = flag (urns sg) u;
          sg1 = (if flag (urns sg) u then sg\<lparr>sink := sink sg @ [DuplicateResourceURNError u]\<rparr>
                 else sg);
          oldInputs = (case Olds P u of Some old \<Rightarrow> Inputs old | None \<Rightarrow> None)
      in case getResourcePropertyStates P u goal of
           (props, inputs, outputs, new) \<Rightarrow>
             (case (if gCustom goal then
                      (case provider L P (gType goal) sg1 of
                         (Inl err, sg2) \<Rightarrow> Inl (err, sg2)
                       | (Inr prov, sg2) \<Rightarrow> Inr (Some prov, sg2))
                    else Inr (None, sg1)) of
                Inl failed \<Rightarrow> Inl failed
              | Inr (prov, sg2) \<Rightarrow>
                  (let refresh = IsRefresh P;
                       allowUnknowns = (preview P \<and> \<not> refresh);
                       recreating = (deletes sg2 u \<noteq> None)
                   in case GenerateSteps_check L H u goal oldInputs prov refresh allowUnknowns
                             recreating (props, inputs, new, invalid) sg2 of
                        Inl failed \<Rightarrow> Inl failed
                      | Inr ((props, inputs, new, invalid), sg3) \<Rightarrow>
                          (case runAnalyzers H u new props (analyzers P) (invalid, sg3) of
                             Inl failed \<Rightarrow> Inl failed
                           | Inr (invalid, sg4) \<Rightarrow>
                               (if invalid then
                                  Inl (New ''One or more resource validation errors occurred; refusing to proceed'',
                                       sg4)
                                else Inr (props, inputs, outputs, new, prov, recreating, sg4))))))"

text \<open>
  The loop over the dependents of a resource that is deleted before its replacement,
  in the order of the visit (the caller reverses the list). The test reads \<open>sg.deletes[urn]\<close>,
  with \<open>urn\<close> the resource that is replaced.
\<close>

fun deleteDependents ::
  "urn \<Rightarrow> State list \<Rightarrow> Step list \<times> stepGenerator \<Rightarrow> Step list \<times> stepGenerator" where
  "deleteDependents u [] acc = acc"
| "deleteDependents u (dependentResource # rest) (steps, sg) =
     (if flag (deletes sg) u then deleteDependents u rest (steps, sg)
      else
        deleteDependents u rest
          (steps @ [NewDeleteReplacementStep dependentResource False],
           sg\<lparr>deletes := (deletes sg)(URN dependentResource \<mapsto> True)\<rparr>))"

text \<open>The branch \<open>diff.Replace()\<close> of the second case.\<close>

definition GenerateSteps_replace ::
  "library \<Rightarrow> host \<Rightarrow> Plan \<Rightarrow> RegisterResourceEvent \<Rightarrow> urn \<Rightarrow> State \<Rightarrow> State \<Rightarrow> Provider option
    \<Rightarrow> DiffResult \<Rightarrow> stepGenerator \<Rightarrow> ((error + Step list) \<times> stepGenerator) outcome" where
  "GenerateSteps_replace L H P event u old new prov d sg =
     (let goal = Goal event;
          refresh = IsRefresh P;
          allowUnknowns = (preview P \<and> \<not> refresh);
          sg1 = sg\<lparr>replaces := (replaces sg)(u \<mapsto> True)\<rparr>
      in case (case prov of
                 None \<Rightarrow> Inr (new, sg1)
               | Some pr \<Rightarrow>
                   (if refresh then Inr (new, sg1)
                    else
                      (let sg2 = sg1\<lparr>trace := trace sg1 @
                                   [CallCheck pr u None (gProperties goal) allowUnknowns]\<rparr>
                       in case Provider_Check H pr u None (gProperties goal) allowUnknowns of
                            Inl err \<Rightarrow> Inl (err, sg2)
                          | Inr (inputs, failures) \<Rightarrow>
                              (case issueCheckErrors L new u failures sg2 of
                                 (bad, sg3) \<Rightarrow>
                                   (if bad then
                                      Inl (New ''One or more resource validation errors occurred; refusing to proceed'',
                                           sg3)
                                    else Inr (new\<lparr>Inputs := inputs\<rparr>, sg3)))))) of
           Inl (err, sg') \<Rightarrow> Returns (Inl err, sg')
         | Inr (new, sg') \<Rightarrow>
             (if DeleteBeforeReplace d then
                (case depGraph P of
                   None \<Rightarrow> Panics
                 | Some DependingOn \<Rightarrow>
                     (case deleteDependents u (rev (DependingOn old)) ([], sg') of
                        (steps, sg'') \<Rightarrow>
                          Returns
                            (Inr (steps @
                                  [NewDeleteReplacementStep old False,
                                   NewReplaceStep old new (ReplaceKeys d) False,
                                   NewCreateReplacementStep event old new (ReplaceKeys d) False]),
                             sg'')))
              else
                Returns
                  (Inr [NewCreateReplacementStep event old new (ReplaceKeys d) True,
                        NewReplaceStep old new (ReplaceKeys d) True],
                   sg')))"

text \<open>
  The three cases. \<open>contract.Assert(!recreating || hasOld)\<close> fails when the resource is
  re-created and has no old state; \<open>contract.Assert(old != nil && old.Type == new.Type)\<close>
  when the types differ.
\<close>

definition GenerateSteps_dispatch ::
  "library \<Rightarrow> host \<Rightarrow> Plan \<Rightarrow> RegisterResourceEvent \<Rightarrow> property_map \<Rightarrow> property_map \<Rightarrow> property_map
    \<Rightarrow> State \<Rightarrow> Provider option \<Rightarrow> bool \<Rightarrow> stepGenerator
    \<Rightarrow> ((error + Step list) \<times> stepGenerator) outcome" where
  "GenerateSteps_dispatch L H P event props inputs outputs new prov recreating sg =
     (let u = generateURN L P event;
          refresh = IsRefresh P;
          allowUnknowns = (preview P \<and> \<not> refresh)
      in case Olds P u of
           None \<Rightarrow>
             (if recreating then Panics
              else Returns (Inr [NewCreateStep event new], sg\<lparr>creates := (creates sg)(u \<mapsto> True)\<rparr>))
         | Some old \<Rightarrow>
             (if recreating then
                contract_Assert (\<not> refresh)
                  (Returns
                     (Inr [NewReplaceStep old new [] False,
                           NewCreateReplacementStep event old new [] False],
                      sg\<lparr>deletes := (deletes sg)(u := None),
                         replaces := (replaces sg)(u \<mapsto> True)\<rparr>))
              else
                contract_Assert (Type old = Type new)
                  (case diff L H u (ID old) (Inputs old) (Outputs old) inputs outputs props prov
                          refresh allowUnknowns (trace sg) of
                     (Inl err, tr) \<Rightarrow> Returns (Inl err, sg\<lparr>trace := tr\<rparr>)
                   | (Inr d, tr) \<Rightarrow>
                       (if Changes d \<noteq> DiffNone \<and> Changes d \<noteq> DiffSome then
                          Returns
                            (Inl (Errorf ''unrecognized diff state for %s: %d''
                                    [ArgString u, ArgChanges (Changes d)]),
                             sg\<lparr>trace := tr\<rparr>)
                        else if Changes d = DiffSome then
                          (if Replace d then
                             GenerateSteps_replace L H P event u old new prov d (sg\<lparr>trace := tr\<rparr>)
                           else
                             Returns
                               (Inr [NewUpdateStep event old new (StableKeys d)],
                                sg\<lparr>trace := tr, updates := (updates sg)(u \<mapsto> True)\<rparr>))
                        else
                          Returns
                            (Inr [NewSameStep event old new],
                             sg\<lparr>trace := tr, sames := (sames sg)(u \<mapsto> True)\<rparr>)))))"

definition GenerateSteps ::
  "library \<Rightarrow> host \<Rightarrow> Plan \<Rightarrow> RegisterResourceEvent \<Rightarrow> stepGenerator
    \<Rightarrow> ((error + Step list) \<times> stepGenerator) outcome" where
  "GenerateSteps L H P event sg =
     (case GenerateSteps_validate L H P event sg of
        Inl (err, sg') \<Rightarrow> Returns (Inl err, sg')
      | Inr (props, inputs, outputs, new, prov, recreating, sg') \<Rightarrow>
          GenerateSteps_dispatch L H P event props inputs outputs new prov recreating sg')"

section \<open>The step generator: GenerateDeletes\<close>

text \<open>The loop over the old resources, in the order of the visit (the caller reverses the list).\<close>

fun GenerateDeletes_loop ::
  "State list \<Rightarrow> Step list \<times> stepGenerator \<Rightarrow> Step list \<times> stepGenerator" where
  "GenerateDeletes_loop [] acc = acc"
| "GenerateDeletes_loop (res # rest) (dels, sg) =
     (if Delete res then
        GenerateDeletes_loop rest
          (dels @ [NewDeleteReplacementStep res True],
           sg\<lparr>deletes := (deletes sg)(URN res \<mapsto> True)\<rparr>)
      else if \<not> flag (sames sg) (URN res) \<and> \<not> flag (updates sg) (URN res)
              \<and> \<not> flag (replaces sg) (URN res) \<and> \<not> flag (deletes sg) (URN res) then
        GenerateDeletes_loop rest
          (dels @ [NewDeleteStep res], sg\<lparr>deletes := (deletes sg)(URN res \<mapsto> True)\<rparr>)
      else GenerateDeletes_loop rest (dels, sg))"

definition GenerateDeletes :: "Plan \<Rightarrow> stepGenerator \<Rightarrow> Step list \<times> stepGenerator" where
  "GenerateDeletes P sg =
     (case prev P of
        None \<Rightarrow> ([], sg)
      | Some resources \<Rightarrow> GenerateDeletes_loop (rev resources) ([], sg))"

section \<open>Observations used in the statements\<close>

text \<open>
  The six sets of a generator together, the calls of \<open>Diff\<close> in its trace, the resource a
  delete step deletes, and version 1.2.3.
\<close>

definition sets :: "stepGenerator \<Rightarrow>
  (urn \<rightharpoonup> bool) \<times> (urn \<rightharpoonup> bool) \<times> (urn \<rightharpoonup> bool) \<times> (urn \<rightharpoonup> bool) \<times> (urn \<rightharpoonup> bool) \<times> (urn \<rightharpoonup> bool)" where
  "sets sg = (urns sg, deletes sg, replaces sg, updates sg, creates sg, sames sg)"

fun is_CallDiff :: "call \<Rightarrow> bool" where
  "is_CallDiff (CallDiff pr u i olds news allowUnknowns) = True"
| "is_CallDiff _ = False"

definition diff_calls :: "stepGenerator \<Rightarrow> call list" where
  "diff_calls sg = filter is_CallDiff (trace sg)"

fun deleted_resource :: "Step \<Rightarrow> State option" where
  "deleted_resource (NewDeleteStep res) = Some res"
| "deleted_resource (NewDeleteReplacementStep res pendingDelete) = Some res"
| "deleted_resource _ = None"

definition v123 :: version where
  "v123 = \<lparr>Major = 1, Minor = 2, Patch = 3, Pre = [], Build = []\<rparr>"

section \<open>A plan, a host and a library for the closed instances\<close>

text \<open>
  The instances below run the functions on these values. The plugin of \<open>demo_host\<close> decides
  its diff by the id of the old resource, and its check refuses the name \<open>taken\<close> when
  there are no old inputs. The host has every package but \<open>gone\<close>.
\<close>

definition demo_library :: library where
  "demo_library =
     \<lparr>NewURN = (\<lambda>stack proj parentType t name. t @ ''::'' @ name),
      urn_Type = (\<lambda>u. u), urn_QualifiedType = (\<lambda>u. u), urn_Name = (\<lambda>u. u),
      type_Name = (\<lambda>t. t), type_Package = (\<lambda>t. t),
      RootStackType = ''pulumi:pulumi:Stack'',
      DeepEquals = (\<lambda>a b. entries a = entries b),
      ParseTolerant = (\<lambda>s. if s = ''1.2.3''
         then Inr \<lparr>Major = 1, Minor = 2, Patch = 3, Pre = [], Build = []\<rparr>
         else Inl ''Invalid character(s) found in major number'')\<rparr>"

definition demo_info :: plugin_info where
  "demo_info = \<lparr>info_Name = ''aws'', info_Kind = ''resource'', info_Version = None\<rparr>"

definition demo_replacement :: "bool \<Rightarrow> DiffResult" where
  "demo_replacement dbr =
     \<lparr>Changes = DiffSome, ReplaceKeys = [''name''], StableKeys = [], DeleteBeforeReplace = dbr\<rparr>"

definition demo_host :: host where
  "demo_host =
     \<lparr>host_Provider = (\<lambda>pkg ver. if pkg = ''gone'' then Inl (New ''no such plugin'') else Inr 7),
      host_CloseProvider = (\<lambda>h. None),
      host_Analyzer = (\<lambda>a. Inr (Some 9)),
      plugin_Configure = (\<lambda>h cfg. None),
      plugin_GetPluginInfo = (\<lambda>h. Inr demo_info),
      plugin_Check = (\<lambda>h u olds news allowUnknowns.
         if olds = None \<and> index news ''name'' = Some (PString ''taken'')
         then Inr (news, [\<lparr>Property = ''name'', Reason = ''the name is taken''\<rparr>])
         else Inr (news, [])),
      plugin_Diff = (\<lambda>h u i olds news allowUnknowns.
         if i = ''dbr'' then Inr (demo_replacement True)
         else if i = ''cbd'' then Inr (demo_replacement False)
         else if i = ''odd'' then Inr (zero_DiffResult\<lparr>Changes := DiffOther 7\<rparr>)
         else Inr zero_DiffResult),
      analyzer_Analyze = (\<lambda>h t props. Inr [])\<rparr>"

definition demo_props :: "string \<Rightarrow> property_map" where
  "demo_props v = Some [(''name'', PString v)]"

definition demo_state :: "string \<Rightarrow> resource_id \<Rightarrow> property_map \<Rightarrow> State" where
  "demo_state name i inputs =
     NewState ''t'' (''t::'' @ name) True False i inputs None [] False [] []"

definition demo_A :: State where "demo_A = demo_state ''a'' ''dbr'' (demo_props ''a1'')"

definition demo_B :: State where "demo_B = demo_state ''b'' ''dbr'' (demo_props ''b1'')"

definition demo_C :: State where
  "demo_C = (demo_state ''c'' ''keep'' (demo_props ''c1''))\<lparr>Dependencies := [''t::a'', ''t::b'']\<rparr>"

definition demo_D :: State where "demo_D = demo_state ''d'' ''cbd'' (demo_props ''d1'')"

definition demo_O :: State where "demo_O = demo_state ''o'' ''odd'' (demo_props ''o1'')"

definition demo_DependingOn :: "State \<Rightarrow> State list" where
  "demo_DependingOn res = (if URN res = ''t::a'' \<or> URN res = ''t::b'' then [demo_C] else [])"

definition demo_plan :: Plan where
  "demo_plan =
     \<lparr>Target_Name = ''dev'', Project = ''proj'',
      Olds = [''t::a'' \<mapsto> demo_A, ''t::b'' \<mapsto> demo_B, ''t::c'' \<mapsto> demo_C, ''t::d'' \<mapsto> demo_D,
              ''t::o'' \<mapsto> demo_O],
      prev = Some [demo_A, demo_B, demo_C, demo_D, demo_O],
      preview = False, IsRefresh = False, analyzers = [],
      depGraph = Some demo_DependingOn,
      plan_Provider = (\<lambda>pkg. Inr (Some (Plugin 7)))\<rparr>"

definition demo_event :: "string \<Rightarrow> property_map \<Rightarrow> bool \<Rightarrow> RegisterResourceEvent" where
  "demo_event name props custom =
     \<lparr>Goal = \<lparr>gType = ''t'', gName = name, gCustom = custom, gProperties = props,
              gParent = [], gProtect = False, gDependencies = []\<rparr>\<rparr>"

definition demo_new :: "string \<Rightarrow> property_map \<Rightarrow> bool \<Rightarrow> State" where
  "demo_new name props custom =
     NewState ''t'' (''t::'' @ name) custom False [] props None [] False [] []"

definition demo_sg_created :: stepGenerator where
  "demo_sg_created = newStepGenerator\<lparr>creates := [''t::n'' \<mapsto> True]\<rparr>"

definition demo_load :: providerLoadRequest where
  "demo_load = \<lparr>req_urn = ''aws'', req_properties = Some [(''region'', PString ''us-west-2'')],
                 req_allowUnknowns = False\<rparr>"

definition demo_response :: providerLoadResponse where
  "demo_response = \<lparr>resp_provider = Some (Plugin 7), resp_failures = [], resp_err = None\<rparr>"

definition demo_loaded :: providerLoader where
  "demo_loaded =
     \<lparr>providers = [''aws'' \<mapsto> \<lparr>rec_properties = Some [(''region'', PString ''us-west-2'')],
                                rec_provider = Some (Plugin 7)\<rparr>],
      host_calls = [CallHostProvider ''aws'' None,
                    CallConfigure 7 [(''aws'', ''region'') \<mapsto> ''us-west-2'']]\<rparr>"

definition demo_lookup :: "urn \<Rightarrow> providerLoadRequest" where
  "demo_lookup u = \<lparr>req_urn = u, req_properties = None, req_allowUnknowns = False\<rparr>"

definition demo_not_found :: providerLoadResponse where
  "demo_not_found = \<lparr>resp_provider = None, resp_failures = [], resp_err = Some ErrMissingProvider\<rparr>"

definition demo_bad_load :: providerLoadRequest where
  "demo_bad_load = \<lparr>req_urn = ''aws'', req_properties = Some [(''region'', PBool True)],
                     req_allowUnknowns = False\<rparr>"

definition demo_bad_response :: providerLoadResponse where
  "demo_bad_response =
     \<lparr>resp_provider = None,
      resp_failures = [\<lparr>Property = ''region'', Reason = ''provider property values must be strings''\<rparr>],
      resp_err = None\<rparr>"

definition demo_gone_response :: providerLoadResponse where
  "demo_gone_response =
     \<lparr>resp_provider = None, resp_failures = [], resp_err = Some (New ''no such plugin'')\<rparr>"

definition demo_gone_loader :: providerLoader where
  "demo_gone_loader = \<lparr>providers = Map.empty, host_calls = [CallHostProvider ''gone'' None]\<rparr>"

definition demo_new_A :: State where "demo_new_A = demo_new ''a'' (demo_props ''a2'') True"

definition demo_new_B :: State where "demo_new_B = demo_new ''b'' (demo_props ''b2'') True"

definition demo_sg_A :: stepGenerator where
  "demo_sg_A =
     \<lparr>urns = Map.empty, deletes = [''t::c'' \<mapsto> True], replaces = [''t::a'' \<mapsto> True],
      updates = Map.empty, creates = Map.empty, sames = Map.empty, sink = [],
      trace = [CallPlanProvider ''t'',
               CallCheck (Plugin 7) ''t::a'' (demo_props ''a1'') (demo_props ''a2'') False,
               CallDiff (Plugin 7) ''t::a'' ''dbr'' None (demo_props ''a2'') False,
               CallCheck (Plugin 7) ''t::a'' None (demo_props ''a2'') False]\<rparr>"

definition demo_sg_AB :: stepGenerator where
  "demo_sg_AB =
     demo_sg_A\<lparr>replaces := [''t::a'' \<mapsto> True, ''t::b'' \<mapsto> True],
       trace := trace demo_sg_A @
              [CallPlanProvider ''t'',
               CallCheck (Plugin 7) ''t::b'' (demo_props ''b1'') (demo_props ''b2'') False,
               CallDiff (Plugin 7) ''t::b'' ''dbr'' None (demo_props ''b2'') False,
               CallCheck (Plugin 7) ''t::b'' None (demo_props ''b2'') False]\<rparr>"

definition demo_new_C :: State where "demo_new_C = demo_new ''c'' (demo_props ''c1'') True"

definition demo_new_D :: State where "demo_new_D = demo_new ''d'' (demo_props ''d2'') True"

definition demo_new_O :: State where "demo_new_O = demo_new ''o'' (demo_props ''o2'') True"

definition demo_checked ::
  "string \<Rightarrow> property_map \<Rightarrow> property_map \<Rightarrow> stepGenerator \<Rightarrow> stepGenerator" where
  "demo_checked name olds news sg =
     sg\<lparr>trace := trace sg @ [CallPlanProvider ''t'',
                               CallCheck (Plugin 7) (''t::'' @ name) olds news False]\<rparr>"

definition demo_diffed ::
  "string \<Rightarrow> resource_id \<Rightarrow> property_map \<Rightarrow> property_map \<Rightarrow> stepGenerator" where
  "demo_diffed name i olds news =
     (demo_checked name olds news newStepGenerator)
       \<lparr>trace := trace (demo_checked name olds news newStepGenerator) @
                   [CallDiff (Plugin 7) (''t::'' @ name) i None news False]\<rparr>"

definition demo_X :: State where "demo_X = demo_state ''x'' ''keep'' (demo_props ''x1'')"

definition demo_Y :: State where "demo_Y = demo_state ''y'' ''keep'' (demo_props ''y1'')"

definition demo_Y_pending :: State where "demo_Y_pending = demo_Y\<lparr>Delete := True\<rparr>"

definition demo_sg_X :: stepGenerator where
  "demo_sg_X = newStepGenerator\<lparr>sames := [''t::x'' \<mapsto> True]\<rparr>"

definition demo_new_taken :: State where
  "demo_new_taken = demo_new ''d'' (demo_props ''taken'') True"

definition demo_sg_taken :: stepGenerator where
  "demo_sg_taken =
     newStepGenerator
       \<lparr>replaces := [''t::d'' \<mapsto> True],
        sink := [ResourcePropertyInvalidValueError ''t::d'' ''t'' ''t::d'' ''name''
                   (Some (PString ''taken'')) ''the name is taken''],
        trace := [CallPlanProvider ''t'',
                  CallCheck (Plugin 7) ''t::d'' (demo_props ''d1'') (demo_props ''taken'') False,
                  CallDiff (Plugin 7) ''t::d'' ''cbd'' None (demo_props ''taken'') False,
                  CallCheck (Plugin 7) ''t::d'' None (demo_props ''taken'') False]\<rparr>"

lemmas demo_defs =
  demo_library_def demo_host_def demo_plan_def demo_event_def demo_new_def demo_state_def
  demo_props_def demo_A_def demo_B_def demo_C_def demo_D_def demo_O_def demo_DependingOn_def
  demo_replacement_def

lemmas model_defs =
  GenerateSteps_def GenerateSteps_validate_def GenerateSteps_dispatch_def GenerateSteps_replace_def
  GenerateSteps_check_def generateURN_def getResourcePropertyStates_def issueCheckErrors_def
  provider_def diff_def Provider_Check_def Provider_Diff_def NewState_def flag_def entries_def
  index_def contract_Assert_def Let_def Replace_def zero_DiffResult_def newStepGenerator_def

lemmas demo_del_defs = demo_X_def demo_Y_def demo_Y_pending_def demo_sg_X_def demo_state_def
  demo_props_def NewState_def newStepGenerator_def flag_def GenerateDeletes_def

section \<open>Loading a provider: proofs\<close>

subsection \<open>The loop over the properties\<close>

lemma convertProperties_appends:
  "\<exists>extra. fst (convertProperties L u au kvs (fs, b, c)) = fs @ extra"
proof (induction kvs arbitrary: fs b c)
  case Nil
  then show ?case by simp
next
  case (Cons kv kvs)
  obtain k v where kv: "kv = (k, v)" by (cases kv)
  show ?case
  proof (cases "k = ''version''")
    case True
    with kv Cons.IH show ?thesis by simp
  next
    case False
    show ?thesis
    proof (cases v)
      case PComputed
      show ?thesis
      proof (cases au)
        case True
        with kv False PComputed Cons.IH [of fs True c] show ?thesis by simp
      next
        case au: False
        from Cons.IH [of "fs @ [\<lparr>Property = k, Reason = ''provider properties must not be unknown''\<rparr>]" b c]
        obtain extra where "fst (convertProperties L u au kvs
            (fs @ [\<lparr>Property = k, Reason = ''provider properties must not be unknown''\<rparr>], b, c))
            = (fs @ [\<lparr>Property = k, Reason = ''provider properties must not be unknown''\<rparr>]) @ extra"
          by blast
        with kv False PComputed au show ?thesis by simp
      qed
    next
      case (PString s)
      with kv False Cons.IH show ?thesis by simp
    qed (use kv False Cons.IH [of "fs @ [\<lparr>Property = k, Reason = ''provider property values must be strings''\<rparr>]" b c] in \<open>auto\<close>)
  qed
qed

lemma convertProperties_keeps:
  "f \<in> set fs \<Longrightarrow> f \<in> set (fst (convertProperties L u au kvs (fs, b, c)))"
  using convertProperties_appends [of L u au kvs fs b c] by auto

lemma convertProperties_step:
  "k \<noteq> ''version'' \<Longrightarrow>
   convertProperties L u au ((k, v) # rest) (fs, b, c) =
     convertProperties L u au rest
       (case v of
          PComputed \<Rightarrow>
            (if \<not> au then
               (fs @ [\<lparr>Property = k, Reason = ''provider properties must not be unknown''\<rparr>], b, c)
             else (fs, True, c))
        | PString s \<Rightarrow> (fs, b, c((type_Name L (urn_Type L u), k) \<mapsto> s))
        | _ \<Rightarrow> (fs @ [\<lparr>Property = k, Reason = ''provider property values must be strings''\<rparr>], b, c))"
  by (cases v) simp_all

lemma convertProperties_unknown_failure:
  "(k, PComputed) \<in> set kvs \<Longrightarrow> k \<noteq> ''version'' \<Longrightarrow>
   \<lparr>Property = k, Reason = ''provider properties must not be unknown''\<rparr>
     \<in> set (fst (convertProperties L u False kvs (fs, b, c)))"
proof (induction kvs arbitrary: fs b c)
  case Nil
  then show ?case by simp
next
  case (Cons kv kvs)
  obtain k' v' where kv: "kv = (k', v')" by (cases kv)
  show ?case
  proof (cases "kv = (k, PComputed)")
    case True
    with Cons.prems(2) show ?thesis
      by (simp add: convertProperties_keeps)
  next
    case False
    with Cons.prems have mem: "(k, PComputed) \<in> set kvs" by simp
    show ?thesis
    proof (cases "k' = ''version''")
      case True
      with kv Cons.IH [OF mem Cons.prems(2)] show ?thesis by simp
    next
      case nv: False
      with kv Cons.IH [OF mem Cons.prems(2)] show ?thesis by (cases v') simp_all
    qed
  qed
qed

lemma convertProperties_shim_mono:
  "b \<Longrightarrow> fst (snd (convertProperties L u au kvs (fs, b, c)))"
proof (induction kvs arbitrary: fs c)
  case Nil
  then show ?case by simp
next
  case (Cons kv kvs)
  obtain k v where kv: "kv = (k, v)" by (cases kv)
  show ?case
  proof (cases "k = ''version''")
    case True
    with kv Cons show ?thesis by simp
  next
    case False
    with kv Cons show ?thesis by (cases v; cases au) simp_all
  qed
qed

lemma convertProperties_unknown_shim:
  "(k, PComputed) \<in> set kvs \<Longrightarrow> k \<noteq> ''version'' \<Longrightarrow>
   fst (snd (convertProperties L u True kvs (fs, b, c)))"
proof (induction kvs arbitrary: fs b c)
  case Nil
  then show ?case by simp
next
  case (Cons kv kvs)
  obtain k' v' where kv: "kv = (k', v')" by (cases kv)
  show ?case
  proof (cases "kv = (k, PComputed)")
    case True
    with Cons.prems(2) show ?thesis
      by (simp add: convertProperties_shim_mono)
  next
    case False
    with Cons.prems have mem: "(k, PComputed) \<in> set kvs" by simp
    show ?thesis
    proof (cases "k' = ''version''")
      case True
      with kv Cons.IH [OF mem Cons.prems(2)] show ?thesis by simp
    next
      case nv: False
      with kv Cons.IH [OF mem Cons.prems(2)] show ?thesis by (cases v') simp_all
    qed
  qed
qed

lemma convertProperties_no_version:
  "\<forall>f \<in> set fs. Property f \<noteq> ''version'' \<Longrightarrow>
   \<forall>f \<in> set (fst (convertProperties L u au kvs (fs, b, c))). Property f \<noteq> ''version''"
proof (induction kvs arbitrary: fs b c)
  case Nil
  then show ?case by simp
next
  case (Cons kv kvs)
  obtain k v where kv: "kv = (k, v)" by (cases kv)
  show ?case
  proof (cases "k = ''version''")
    case True
    with kv Cons show ?thesis by simp
  next
    case False
    define acc where "acc = (case v of
          PComputed \<Rightarrow>
            (if \<not> au then
               (fs @ [\<lparr>Property = k, Reason = ''provider properties must not be unknown''\<rparr>], b, c)
             else (fs, True, c))
        | PString s \<Rightarrow> (fs, b, c((type_Name L (urn_Type L u), k) \<mapsto> s))
        | _ \<Rightarrow> (fs @ [\<lparr>Property = k, Reason = ''provider property values must be strings''\<rparr>], b, c))"
    obtain fs1 b1 c1 where acc: "acc = (fs1, b1, c1)" by (cases acc)
    from False Cons.prems acc have "\<forall>f \<in> set fs1. Property f \<noteq> ''version''"
      unfolding acc_def by (cases v) (auto split: if_splits)
    moreover have "convertProperties L u au (kv # kvs) (fs, b, c)
        = convertProperties L u au kvs (fs1, b1, c1)"
      using convertProperties_step [OF False, of L u au v kvs fs b c] acc kv
      unfolding acc_def by presburger
    ultimately show ?thesis
      using Cons.IH [of fs1 b1 c1] by presburger
  qed
qed

text \<open>
  With unknowns allowed, the loop adds no failure when every property other than \<open>version\<close>
  is computed or a string.
\<close>

lemma convertProperties_no_failures:
  "\<forall>(k, v) \<in> set kvs. k \<noteq> ''version'' \<longrightarrow> v = PComputed \<or> (\<exists>s. v = PString s) \<Longrightarrow>
   fst (convertProperties L u True kvs (fs, b, c)) = fs"
proof (induction kvs arbitrary: b c)
  case Nil
  then show ?case by simp
next
  case (Cons kv kvs)
  obtain k v where kv: "kv = (k, v)" by (cases kv)
  from Cons.prems have rest:
    "\<forall>(k, v) \<in> set kvs. k \<noteq> ''version'' \<longrightarrow> v = PComputed \<or> (\<exists>s. v = PString s)"
    by simp
  show ?case
  proof (cases "k = ''version''")
    case True
    with kv Cons.IH [OF rest] show ?thesis by simp
  next
    case False
    with Cons.prems kv have "v = PComputed \<or> (\<exists>s. v = PString s)" by simp
    with kv False Cons.IH [OF rest] show ?thesis by auto
  qed
qed

subsection \<open>The result of a load\<close>

lemma loadProvider_success_provider:
  assumes "loadProvider L H u props au tr = ((prov, failures, err), tr')"
    and "failures = []" and "err = None"
  shows "prov \<noteq> None"
  using assms
  by (auto simp: loadProvider_def Let_def loadProviderRaw_def
           split: prod.splits if_splits sum.splits option.splits)

lemma loadProvider_failures:
  assumes "fst (convertProperties L u au (entries properties)
                  (fst (requestedVersion L properties), False, Map.empty)) \<noteq> []"
  shows "loadProvider L H u properties au tr =
     ((None, fst (convertProperties L u au (entries properties)
                  (fst (requestedVersion L properties), False, Map.empty)), None), tr)"
proof -
  obtain f0 ver where rv: "requestedVersion L properties = (f0, ver)"
    by (cases "requestedVersion L properties")
  obtain fs b c where cp:
    "convertProperties L u au (entries properties) (f0, False, Map.empty) = (fs, b, c)"
    using prod_cases3 by blast
  from assms rv cp have "fs \<noteq> []" by simp
  with rv cp show ?thesis by (simp add: loadProvider_def)
qed

lemma loadProvider_failures_eq:
  "fst (snd (fst (loadProvider L H u properties au tr))) =
     fst (convertProperties L u au (entries properties)
            (fst (requestedVersion L properties), False, Map.empty))"
  by (auto simp: loadProvider_def Let_def loadProviderRaw_def
           split: prod.splits sum.splits option.splits)

lemma loadProvider_version_failure:
  assumes "requestedVersion L properties = ([f], ver)"
  shows "\<exists>rest. loadProvider L H u properties au tr = ((None, f # rest, None), tr)"
proof -
  obtain extra where e: "fst (convertProperties L u au (entries properties) ([f], False, Map.empty))
      = [f] @ extra"
    using convertProperties_appends by blast
  then have "fst (convertProperties L u au (entries properties)
                  (fst (requestedVersion L properties), False, Map.empty)) \<noteq> []"
    using assms by simp
  from loadProvider_failures [OF this] e assms show ?thesis by simp
qed

lemma loadProvider_asks_version:
  assumes "fst (snd (fst (loadProvider L H u properties au tr))) = []"
  shows "\<exists>more. snd (loadProvider L H u properties au tr) =
           tr @ CallHostProvider (type_Name L (urn_Type L u)) (snd (requestedVersion L properties)) # more"
  using assms
  by (auto simp: loadProvider_def Let_def loadProviderRaw_def
           split: prod.splits sum.splits option.splits if_splits)

subsection \<open>The version property and unknown values\<close>

text \<open>
  Claim C7. If \<open>version\<close> is the string \<open>1.2.3\<close>, which the tolerant parser reads as version
  1.2.3, the version is accepted: no failure names \<open>version\<close>, and a load without failures
  asks the host for that version. If \<open>version\<close> is not a string, the load returns the failure
  \<open>'version' must be a string\<close>; if it is a string the parser rejects with the error
  \<open>err\<close>, the failure's reason ends with \<open>err\<close>. In both cases the load returns the failures,
  no provider and no error, and calls nothing. The parser is the library's (\<open>semver\<close>); it
  is a parameter here.
\<close>

theorem version_property:
  "(index properties ''version'' = Some (PString ''1.2.3'') \<and> ParseTolerant L ''1.2.3'' = Inr v123
      \<longrightarrow> requestedVersion L properties = ([], Some v123)
        \<and> (\<forall>f \<in> set (fst (snd (fst (loadProvider L H u properties au tr)))).
              Property f \<noteq> ''version'')
        \<and> (fst (snd (fst (loadProvider L H u properties au tr))) = [] \<longrightarrow>
             (\<exists>more. snd (loadProvider L H u properties au tr) =
                tr @ CallHostProvider (type_Name L (urn_Type L u)) (Some v123) # more)))
   \<and> (index properties ''version'' = Some v \<and> (\<forall>s. v \<noteq> PString s)
      \<longrightarrow> (\<exists>rest. loadProvider L H u properties au tr =
             ((None, \<lparr>Property = ''version'', Reason = '''version' must be a string''\<rparr> # rest,
               None), tr)))
   \<and> (index properties ''version'' = Some (PString s) \<and> ParseTolerant L s = Inl err
      \<longrightarrow> (\<exists>rest. loadProvider L H u properties au tr =
             ((None, \<lparr>Property = ''version'',
                       Reason = ''could not parse provider version: '' @ err\<rparr> # rest,
               None), tr)))"
proof (intro conjI impI)
  assume a: "index properties ''version'' = Some (PString ''1.2.3'') \<and>
             ParseTolerant L ''1.2.3'' = Inr v123"
  then show rv: "requestedVersion L properties = ([], Some v123)"
    by (simp add: requestedVersion_def)
  show "\<forall>f \<in> set (fst (snd (fst (loadProvider L H u properties au tr)))).
          Property f \<noteq> ''version''"
    using rv convertProperties_no_version [of "[]" L u au "entries properties" False Map.empty]
    by (simp add: loadProvider_failures_eq)
  assume "fst (snd (fst (loadProvider L H u properties au tr))) = []"
  from loadProvider_asks_version [OF this] rv
  show "\<exists>more. snd (loadProvider L H u properties au tr) =
          tr @ CallHostProvider (type_Name L (urn_Type L u)) (Some v123) # more"
    by simp
next
  assume "index properties ''version'' = Some v \<and> (\<forall>s. v \<noteq> PString s)"
  then have "requestedVersion L properties =
      ([\<lparr>Property = ''version'', Reason = '''version' must be a string''\<rparr>], None)"
    by (cases v) (simp_all add: requestedVersion_def)
  then show "\<exists>rest. loadProvider L H u properties au tr =
             ((None, \<lparr>Property = ''version'', Reason = '''version' must be a string''\<rparr> # rest,
               None), tr)"
    by (rule loadProvider_version_failure)
next
  assume "index properties ''version'' = Some (PString s) \<and> ParseTolerant L s = Inl err"
  then have "requestedVersion L properties =
      ([\<lparr>Property = ''version'', Reason = ''could not parse provider version: '' @ err\<rparr>],
       Some zero_version)"
    by (simp add: requestedVersion_def)
  then show "\<exists>rest. loadProvider L H u properties au tr =
             ((None, \<lparr>Property = ''version'',
                       Reason = ''could not parse provider version: '' @ err\<rparr> # rest,
               None), tr)"
    by (rule loadProvider_version_failure)
qed

text \<open>Instances of C7, one for each of the three kinds of \<open>version\<close> value.\<close>

theorem version_property_witness:
  "requestedVersion demo_library (Some [(''version'', PString ''1.2.3'')]) = ([], Some v123)
   \<and> (\<exists>more. snd (loadProvider demo_library demo_host ''aws''
                     (Some [(''version'', PString ''1.2.3'')]) False [])
          = [] @ CallHostProvider ''aws'' (Some v123) # more)
   \<and> (\<exists>rest. loadProvider demo_library demo_host ''aws'' (Some [(''version'', PBool True)]) False []
          = ((None, \<lparr>Property = ''version'', Reason = '''version' must be a string''\<rparr> # rest,
              None), []))
   \<and> (\<exists>rest. loadProvider demo_library demo_host ''aws'' (Some [(''version'', PString ''x'')]) False []
          = ((None, \<lparr>Property = ''version'',
                      Reason = ''could not parse provider version: ''
                               @ ''Invalid character(s) found in major number''\<rparr> # rest,
              None), []))"
proof -
  have p: "ParseTolerant demo_library ''1.2.3'' = Inr v123"
    by (simp add: demo_library_def v123_def)
  have q: "ParseTolerant demo_library ''x'' = Inl ''Invalid character(s) found in major number''"
    by (simp add: demo_library_def)
  have nofail: "fst (snd (fst (loadProvider demo_library demo_host ''aws''
                     (Some [(''version'', PString ''1.2.3'')]) False []))) = []"
    by (simp add: loadProvider_failures_eq requestedVersion_def index_def entries_def p)
  have tn: "type_Name demo_library (urn_Type demo_library ''aws'') = ''aws''"
    by (simp add: demo_library_def)
  from version_property [of "Some [(''version'', PString ''1.2.3'')]" demo_library demo_host
      "''aws''" False "[]"] p nofail tn
  have a: "requestedVersion demo_library (Some [(''version'', PString ''1.2.3'')]) = ([], Some v123)
     \<and> (\<exists>more. snd (loadProvider demo_library demo_host ''aws''
                     (Some [(''version'', PString ''1.2.3'')]) False [])
          = [] @ CallHostProvider ''aws'' (Some v123) # more)"
    by (simp add: index_def entries_def)
  from version_property [of "Some [(''version'', PBool True)]" demo_library demo_host
      "''aws''" False "[]" "PBool True"]
  have b: "\<exists>rest. loadProvider demo_library demo_host ''aws'' (Some [(''version'', PBool True)]) False []
          = ((None, \<lparr>Property = ''version'', Reason = '''version' must be a string''\<rparr> # rest,
              None), [])"
    by (simp add: index_def entries_def)
  from version_property [of "Some [(''version'', PString ''x'')]" demo_library demo_host
      "''aws''" False "[]" _ "''x''" "''Invalid character(s) found in major number''"] q
  have c: "\<exists>rest. loadProvider demo_library demo_host ''aws'' (Some [(''version'', PString ''x'')]) False []
          = ((None, \<lparr>Property = ''version'',
                      Reason = ''could not parse provider version: ''
                               @ ''Invalid character(s) found in major number''\<rparr> # rest,
              None), [])"
    by (simp add: index_def entries_def)
  from a b c show ?thesis by blast
qed

text \<open>The version is accepted when it is absent, or a string that the parser reads.\<close>

lemma requestedVersion_accepted:
  assumes "(index properties ''version'' = None \<and> ver = None)
         \<or> (\<exists>s sv. index properties ''version'' = Some (PString s)
                    \<and> ParseTolerant L s = Inr sv \<and> ver = Some sv)"
  shows "requestedVersion L properties = ([], ver)"
  using assms by (auto simp: requestedVersion_def)

text \<open>
  Claim C6 as stated fails when the host cannot start the plugin. The property \<open>token\<close> is
  computed, the only other property is a string, unknowns are allowed and there is no
  validation failure; the host has no plugin for the package, and the load returns the host's
  error and no provider, not a shim.
\<close>

theorem unknown_properties_counterexample:
  "(''token'', PComputed)
       \<in> set (entries (Some [(''region'', PString ''eu''), (''token'', PComputed)]))
   \<and> ''token'' \<noteq> ''version''
   \<and> index (Some [(''region'', PString ''eu''), (''token'', PComputed)]) ''version'' = None
   \<and> fst (snd (fst (loadProvider demo_library demo_host ''gone''
                       (Some [(''region'', PString ''eu''), (''token'', PComputed)]) True []))) = []
   \<and> loadProvider demo_library demo_host ''gone''
        (Some [(''region'', PString ''eu''), (''token'', PComputed)]) True []
       = ((None, [], Some (New ''no such plugin'')), [CallHostProvider ''gone'' None])"
proof (intro conjI)
  show "loadProvider demo_library demo_host ''gone''
        (Some [(''region'', PString ''eu''), (''token'', PComputed)]) True []
       = ((None, [], Some (New ''no such plugin'')), [CallHostProvider ''gone'' None])"
    by (simp add: loadProvider_def requestedVersion_def index_def entries_def Let_def
          demo_library_def demo_host_def)
  then show "fst (snd (fst (loadProvider demo_library demo_host ''gone''
                       (Some [(''region'', PString ''eu''), (''token'', PComputed)]) True []))) = []"
    by simp
qed (simp_all add: entries_def index_def)

text \<open>
  Claim C6, amended. Let the property \<open>k\<close>, which is not \<open>version\<close>, be computed. With unknowns
  disallowed the load returns, without provider or error, failures among which is
  \<open>provider properties must not be unknown\<close> for \<open>k\<close>. With unknowns allowed, let no other
  validation failure be possible (every other property is computed or a string, and
  \<open>version\<close> is absent or a string the parser reads as \<open>ver\<close>), let the host start the plugin
  and the plugin report its info. Then the load returns, with no failure and no error, a
  shim with that info; the plugin is asked for its info and closed, never configured. The
  shim's \<open>GetPluginInfo\<close> returns the info. Its \<open>Create\<close>, \<open>Update\<close> and \<open>Delete\<close> are the
  assertion \<open>contract.Fail\<close> followed by the return of the error
  \<open>the shimProvider cannot perform CRUD operations\<close>: they stop at the assertion.
\<close>

theorem unknown_properties:
  "((k, PComputed) \<in> set (entries properties) \<and> k \<noteq> ''version''
      \<longrightarrow> (\<exists>failures. loadProvider L H u properties False tr = ((None, failures, None), tr)
            \<and> \<lparr>Property = k, Reason = ''provider properties must not be unknown''\<rparr>
                \<in> set failures))
   \<and> ((k, PComputed) \<in> set (entries properties) \<and> k \<noteq> ''version''
       \<and> (\<forall>(k', v) \<in> set (entries properties).
             k' \<noteq> ''version'' \<longrightarrow> v = PComputed \<or> (\<exists>s. v = PString s))
       \<and> ((index properties ''version'' = None \<and> ver = None)
          \<or> (\<exists>s sv. index properties ''version'' = Some (PString s)
                     \<and> ParseTolerant L s = Inr sv \<and> ver = Some sv))
       \<and> host_Provider H (type_Name L (urn_Type L u)) ver = Inr h
       \<and> plugin_GetPluginInfo H h = Inr info
      \<longrightarrow> loadProvider L H u properties True tr =
            ((Some (Shim \<lparr>shim_pkg = type_Name L (urn_Type L u), shim_info = info\<rparr>), [], None),
             tr @ [CallHostProvider (type_Name L (urn_Type L u)) ver,
                   CallGetPluginInfo h, CallHostCloseProvider h])
          \<and> shim_GetPluginInfo \<lparr>shim_pkg = type_Name L (urn_Type L u), shim_info = info\<rparr>
              = (info, None)
          \<and> shim_Create \<lparr>shim_pkg = type_Name L (urn_Type L u), shim_info = info\<rparr> u' news
              = contract_Fail
                  (Returns ('''', None, StatusOK,
                            Some (New ''the shimProvider cannot perform CRUD operations'')))
          \<and> shim_Create \<lparr>shim_pkg = type_Name L (urn_Type L u), shim_info = info\<rparr> u' news = Panics
          \<and> shim_Update \<lparr>shim_pkg = type_Name L (urn_Type L u), shim_info = info\<rparr> u' i olds news
              = contract_Fail
                  (Returns (None, StatusOK,
                            Some (New ''the shimProvider cannot perform CRUD operations'')))
          \<and> shim_Update \<lparr>shim_pkg = type_Name L (urn_Type L u), shim_info = info\<rparr> u' i olds news
              = Panics
          \<and> shim_Delete \<lparr>shim_pkg = type_Name L (urn_Type L u), shim_info = info\<rparr> u' i olds
              = contract_Fail
                  (Returns (StatusOK,
                            Some (New ''the shimProvider cannot perform CRUD operations'')))
          \<and> shim_Delete \<lparr>shim_pkg = type_Name L (urn_Type L u), shim_info = info\<rparr> u' i olds
              = Panics)"
proof (intro conjI impI)
  assume a: "(k, PComputed) \<in> set (entries properties) \<and> k \<noteq> ''version''"
  let ?fs = "fst (convertProperties L u False (entries properties)
                    (fst (requestedVersion L properties), False, Map.empty))"
  from a have mem: "\<lparr>Property = k, Reason = ''provider properties must not be unknown''\<rparr> \<in> set ?fs"
    by (simp add: convertProperties_unknown_failure)
  then have "?fs \<noteq> []" by auto
  from loadProvider_failures [OF this] mem
  show "\<exists>failures. loadProvider L H u properties False tr = ((None, failures, None), tr)
            \<and> \<lparr>Property = k, Reason = ''provider properties must not be unknown''\<rparr>
                \<in> set failures"
    by blast
next
  assume b: "(k, PComputed) \<in> set (entries properties) \<and> k \<noteq> ''version''
       \<and> (\<forall>(k', v) \<in> set (entries properties).
             k' \<noteq> ''version'' \<longrightarrow> v = PComputed \<or> (\<exists>s. v = PString s))
       \<and> ((index properties ''version'' = None \<and> ver = None)
          \<or> (\<exists>s sv. index properties ''version'' = Some (PString s)
                     \<and> ParseTolerant L s = Inr sv \<and> ver = Some sv))
       \<and> host_Provider H (type_Name L (urn_Type L u)) ver = Inr h
       \<and> plugin_GetPluginInfo H h = Inr info"
  then have rv: "requestedVersion L properties = ([], ver)"
    using requestedVersion_accepted by blast
  obtain fs b' c where cp:
    "convertProperties L u True (entries properties) ([], False, Map.empty) = (fs, b', c)"
    using prod_cases3 by blast
  from b have "fst (snd (convertProperties L u True (entries properties) ([], False, Map.empty)))"
    using convertProperties_unknown_shim [of k "entries properties"] by blast
  with cp have b': "b'" by simp
  from b have "fst (convertProperties L u True (entries properties) ([], False, Map.empty)) = []"
    using convertProperties_no_failures [of "entries properties" L u "[]" False Map.empty] by blast
  with cp have fs: "fs = []" by simp
  from b have hp: "host_Provider H (type_Name L (urn_Type L u)) ver = Inr h"
    and gi: "plugin_GetPluginInfo H h = Inr info"
    by simp_all
  show "loadProvider L H u properties True tr =
            ((Some (Shim \<lparr>shim_pkg = type_Name L (urn_Type L u), shim_info = info\<rparr>), [], None),
             tr @ [CallHostProvider (type_Name L (urn_Type L u)) ver,
                   CallGetPluginInfo h, CallHostCloseProvider h])"
    by (simp add: loadProvider_def Let_def rv cp b' fs hp gi)
qed (simp_all add: shim_GetPluginInfo_def shim_Create_def shim_Update_def shim_Delete_def
       contract_Fail_def)

text \<open>
  Instances of C6 as amended, for a map with a string property beside the computed one: with
  unknowns disallowed, and with unknowns allowed and a version.
\<close>

theorem unknown_properties_witness:
  "(\<exists>failures. loadProvider demo_library demo_host ''aws''
        (Some [(''region'', PString ''eu''), (''token'', PComputed)]) False []
        = ((None, failures, None), [])
      \<and> \<lparr>Property = ''token'', Reason = ''provider properties must not be unknown''\<rparr>
          \<in> set failures)
   \<and> loadProvider demo_library demo_host ''aws''
        (Some [(''region'', PString ''eu''), (''token'', PComputed), (''version'', PString ''1.2.3'')])
        True []
        = ((Some (Shim \<lparr>shim_pkg = ''aws'', shim_info = demo_info\<rparr>), [], None),
           [CallHostProvider ''aws'' (Some v123), CallGetPluginInfo 7, CallHostCloseProvider 7])
   \<and> shim_GetPluginInfo \<lparr>shim_pkg = ''aws'', shim_info = demo_info\<rparr> = (demo_info, None)
   \<and> shim_Create \<lparr>shim_pkg = ''aws'', shim_info = demo_info\<rparr> ''urn'' None = Panics
   \<and> shim_Update \<lparr>shim_pkg = ''aws'', shim_info = demo_info\<rparr> ''urn'' ''id'' None None = Panics
   \<and> shim_Delete \<lparr>shim_pkg = ''aws'', shim_info = demo_info\<rparr> ''urn'' ''id'' None = Panics"
proof -
  let ?p1 = "Some [(''region'', PString ''eu''), (''token'', PComputed)]"
  let ?p2 = "Some [(''region'', PString ''eu''), (''token'', PComputed),
                   (''version'', PString ''1.2.3'')]"
  have mem1: "(''token'', PComputed) \<in> set (entries ?p1) \<and> ''token'' \<noteq> ''version''"
    by (simp add: entries_def)
  have mem2: "(''token'', PComputed) \<in> set (entries ?p2) \<and> ''token'' \<noteq> ''version''"
    by (simp add: entries_def)
  have others: "\<forall>(k', v) \<in> set (entries ?p2).
             k' \<noteq> ''version'' \<longrightarrow> v = PComputed \<or> (\<exists>s. v = PString s)"
    by (simp add: entries_def)
  have ver: "(index ?p2 ''version'' = None \<and> Some v123 = None)
          \<or> (\<exists>s sv. index ?p2 ''version'' = Some (PString s)
                     \<and> ParseTolerant demo_library s = Inr sv \<and> Some v123 = Some sv)"
    by (simp add: index_def entries_def demo_library_def v123_def)
  have tn: "type_Name demo_library (urn_Type demo_library ''aws'') = ''aws''"
    by (simp add: demo_library_def)
  have hp: "host_Provider demo_host ''aws'' (Some v123) = Inr 7"
    by (simp add: demo_host_def)
  have gi: "plugin_GetPluginInfo demo_host 7 = Inr demo_info"
    by (simp add: demo_host_def)
  from unknown_properties [of "''token''" ?p1 demo_library demo_host "''aws''" "[]"] mem1
  have first: "\<exists>failures. loadProvider demo_library demo_host ''aws'' ?p1 False []
        = ((None, failures, None), [])
      \<and> \<lparr>Property = ''token'', Reason = ''provider properties must not be unknown''\<rparr>
          \<in> set failures"
    by blast
  from unknown_properties [of "''token''" ?p2 demo_library demo_host "''aws''" "[]"
      "Some v123" 7 demo_info "''urn''" None "''id''" None] mem2 others ver tn hp gi
  have second: "loadProvider demo_library demo_host ''aws'' ?p2 True []
        = ((Some (Shim \<lparr>shim_pkg = ''aws'', shim_info = demo_info\<rparr>), [], None),
           [CallHostProvider ''aws'' (Some v123), CallGetPluginInfo 7, CallHostCloseProvider 7])
   \<and> shim_GetPluginInfo \<lparr>shim_pkg = ''aws'', shim_info = demo_info\<rparr> = (demo_info, None)
   \<and> shim_Create \<lparr>shim_pkg = ''aws'', shim_info = demo_info\<rparr> ''urn'' None = Panics
   \<and> shim_Update \<lparr>shim_pkg = ''aws'', shim_info = demo_info\<rparr> ''urn'' ''id'' None None = Panics
   \<and> shim_Delete \<lparr>shim_pkg = ''aws'', shim_info = demo_info\<rparr> ''urn'' ''id'' None = Panics"
    by (simp add: contract_Fail_def)
  from first second show ?thesis by blast
qed

section \<open>The provider registry: proofs\<close>

lemma serve_request_lookup:
  "req_properties req = None \<Longrightarrow>
   serve_request L H req p =
     Returns ((case providers p (req_urn req) of
                 None \<Rightarrow> \<lparr>resp_provider = None, resp_failures = [], resp_err = Some ErrMissingProvider\<rparr>
               | Some r \<Rightarrow> \<lparr>resp_provider = rec_provider r, resp_failures = [], resp_err = None\<rparr>), p)"
  by (simp add: serve_request_def split: option.splits)

lemma serve_request_load:
  assumes "req_properties req = Some kvs"
    and "serve_request L H req p = Returns (resp, p')"
  shows "providers p (req_urn req) = None"
    and "resp_failures resp = [] \<and> resp_err resp = None \<Longrightarrow>
         providers p' = (providers p)(req_urn req \<mapsto>
            \<lparr>rec_properties = req_properties req, rec_provider = resp_provider resp\<rparr>)"
    and "\<not> (resp_failures resp = [] \<and> resp_err resp = None) \<Longrightarrow> providers p' = providers p"
  using assms
  by (auto simp: serve_request_def contract_Assert_def split: if_splits prod.splits)

lemma serve_request_keeps:
  assumes "serve_request L H req p = Returns (resp, p')" and "providers p U = Some r"
  shows "providers p' U = Some r"
proof (cases "req_properties req")
  case None
  with assms show ?thesis by (simp add: serve_request_lookup)
next
  case (Some kvs)
  from serve_request_load [OF Some assms(1)] assms(2) show ?thesis
    by (cases "resp_failures resp = [] \<and> resp_err resp = None") auto
qed

lemma serve_keeps:
  "serve L H reqs p = Returns (resps, p') \<Longrightarrow> providers p U = Some r \<Longrightarrow> providers p' U = Some r"
proof (induction reqs arbitrary: p resps)
  case Nil
  then show ?case by simp
next
  case (Cons req reqs)
  from Cons.prems(1) obtain resp p1 resps1 where
    s1: "serve_request L H req p = Returns (resp, p1)" and
    s2: "serve L H reqs p1 = Returns (resps1, p')"
    by (auto split: outcome.splits)
  from serve_request_keeps [OF s1 Cons.prems(2)] Cons.IH [OF s2] show ?case by simp
qed

lemma serve_absent:
  "serve L H reqs p = Returns (resps, p') \<Longrightarrow> providers p U = None \<Longrightarrow>
   (\<forall>(req, resp) \<in> set (zip reqs resps).
      req_urn req = U \<and> req_properties req \<noteq> None \<longrightarrow>
      \<not> (resp_failures resp = [] \<and> resp_err resp = None)) \<Longrightarrow>
   providers p' U = None"
proof (induction reqs arbitrary: p resps)
  case Nil
  then show ?case by simp
next
  case (Cons req reqs)
  from Cons.prems(1) obtain resp p1 resps1 where
    s1: "serve_request L H req p = Returns (resp, p1)" and
    s2: "serve L H reqs p1 = Returns (resps1, p')" and
    rs: "resps = resp # resps1"
    by (auto split: outcome.splits)
  have p1: "providers p1 U = None"
  proof (cases "req_properties req")
    case None
    with s1 Cons.prems(2) show ?thesis by (simp add: serve_request_lookup)
  next
    case (Some kvs)
    show ?thesis
    proof (cases "resp_failures resp = [] \<and> resp_err resp = None")
      case True
      with Cons.prems(3) rs Some have "req_urn req \<noteq> U" by auto
      with serve_request_load(2) [OF Some s1 True] Cons.prems(2) show ?thesis by simp
    next
      case False
      with serve_request_load(3) [OF Some s1] Cons.prems(2) show ?thesis by simp
    qed
  qed
  from Cons.prems(3) rs have
    "\<forall>(req, resp) \<in> set (zip reqs resps1).
       req_urn req = U \<and> req_properties req \<noteq> None \<longrightarrow>
       \<not> (resp_failures resp = [] \<and> resp_err resp = None)"
    by auto
  from Cons.IH [OF s2 p1 this] show ?case .
qed

lemma getProvider_eq:
  "getProvider L H U p =
     Returns ((case providers p U of
                 None \<Rightarrow> (None, Some ErrMissingProvider)
               | Some r \<Rightarrow> (rec_provider r, None)), p)"
  by (simp add: getProvider_def metaProvider_loadProvider_def serve_request_lookup
           split: option.splits)

lemma serve_request_load_provider:
  assumes "serve_request L H \<lparr>req_urn = U, req_properties = Some kvs, req_allowUnknowns = au\<rparr> p
             = Returns (resp, p')"
    and "resp_failures resp = []" and "resp_err resp = None"
  shows "resp_provider resp \<noteq> None"
  using assms loadProvider_success_provider [of L H U "Some kvs" au "host_calls p"]
  by (auto simp: serve_request_def contract_Assert_def split: if_splits prod.splits)

lemma demo_load_served:
  "serve_request demo_library demo_host demo_load newProviderLoader
     = Returns (demo_response, demo_loaded)"
  by (simp add: Let_def serve_request_def demo_load_def contract_Assert_def newProviderLoader_def
        loadProvider_def requestedVersion_def index_def entries_def loadProviderRaw_def
        demo_library_def demo_host_def demo_response_def demo_loaded_def)

text \<open>
  Claim C3. After a load request for \<open>U\<close> with properties has succeeded (no failure, no
  error), and whatever requests the loop has served since, a lookup of \<open>U\<close> returns the
  provider the load returned, and leaves the loader as it was: no call on the host or on
  \<open>Configure\<close> is added to \<open>host_calls\<close>. For a URN for which no load has succeeded since the
  loader was made, the lookup fails with \<open>ErrMissingProvider\<close>, whose message is
  \<open>provider not found\<close>.
\<close>

theorem lookup_after_load:
  "(serve_request L H \<lparr>req_urn = U, req_properties = Some kvs, req_allowUnknowns = au\<rparr> p0
        = Returns (resp, p1)
      \<and> resp_failures resp = [] \<and> resp_err resp = None
      \<and> serve L H later p1 = Returns (resps, p2)
    \<longrightarrow> resp_provider resp \<noteq> None
      \<and> getProvider L H U p2 = Returns ((resp_provider resp, None), p2))
   \<and> (serve L H reqs newProviderLoader = Returns (resps', p)
      \<and> (\<forall>(req, resp) \<in> set (zip reqs resps').
            req_urn req = U \<and> req_properties req \<noteq> None \<longrightarrow>
            \<not> (resp_failures resp = [] \<and> resp_err resp = None))
    \<longrightarrow> getProvider L H U p = Returns ((None, Some ErrMissingProvider), p)
      \<and> ErrMissingProvider = New ''provider not found'')"
proof (intro conjI impI)
  assume a: "serve_request L H \<lparr>req_urn = U, req_properties = Some kvs, req_allowUnknowns = au\<rparr> p0
        = Returns (resp, p1)
      \<and> resp_failures resp = [] \<and> resp_err resp = None
      \<and> serve L H later p1 = Returns (resps, p2)"
  then show "resp_provider resp \<noteq> None"
    using serve_request_load_provider by blast
  from a have "providers p1 U = Some \<lparr>rec_properties = Some kvs, rec_provider = resp_provider resp\<rparr>"
    using serve_request_load(2) [of "\<lparr>req_urn = U, req_properties = Some kvs, req_allowUnknowns = au\<rparr>"
        kvs L H p0 resp p1]
    by simp
  with a have "providers p2 U = Some \<lparr>rec_properties = Some kvs, rec_provider = resp_provider resp\<rparr>"
    using serve_keeps by blast
  then show "getProvider L H U p2 = Returns ((resp_provider resp, None), p2)"
    by (simp add: getProvider_eq)
next
  assume b: "serve L H reqs newProviderLoader = Returns (resps', p)
      \<and> (\<forall>(req, resp) \<in> set (zip reqs resps').
            req_urn req = U \<and> req_properties req \<noteq> None \<longrightarrow>
            \<not> (resp_failures resp = [] \<and> resp_err resp = None))"
  have "providers newProviderLoader U = None" by (simp add: newProviderLoader_def)
  with b have "providers p U = None" using serve_absent by blast
  then show "getProvider L H U p = Returns ((None, Some ErrMissingProvider), p)"
    by (simp add: getProvider_eq)
next
  show "ErrMissingProvider = New ''provider not found''" by (simp add: ErrMissingProvider_def)
qed

text \<open>
  An instance of C3: the provider for \<open>aws\<close> is loaded, a lookup of \<open>gcp\<close> follows; \<open>aws\<close>
  is then found and \<open>gcp\<close> is not.
\<close>

theorem lookup_after_load_witness:
  "serve_request demo_library demo_host demo_load newProviderLoader
       = Returns (demo_response, demo_loaded)
   \<and> serve demo_library demo_host [demo_lookup ''gcp''] demo_loaded
       = Returns ([demo_not_found], demo_loaded)
   \<and> getProvider demo_library demo_host ''aws'' demo_loaded
       = Returns ((Some (Plugin 7), None), demo_loaded)
   \<and> getProvider demo_library demo_host ''gcp'' demo_loaded
       = Returns ((None, Some (New ''provider not found'')), demo_loaded)"
proof -
  have later: "serve demo_library demo_host [demo_lookup ''gcp''] demo_loaded
       = Returns ([demo_not_found], demo_loaded)"
    by (simp add: serve_request_def demo_lookup_def demo_loaded_def demo_not_found_def)
  have loads: "serve demo_library demo_host [demo_load] newProviderLoader
       = Returns ([demo_response], demo_loaded)"
    by (simp add: demo_load_served)
  have none: "\<forall>(req, resp) \<in> set (zip [demo_load] [demo_response]).
            req_urn req = ''gcp'' \<and> req_properties req \<noteq> None \<longrightarrow>
            \<not> (resp_failures resp = [] \<and> resp_err resp = None)"
    by (simp add: demo_load_def)
  have ok: "resp_failures demo_response = [] \<and> resp_err demo_response = None"
    by (simp add: demo_response_def)
  from lookup_after_load [of demo_library demo_host "''aws''"
      "[(''region'', PString ''us-west-2'')]" False newProviderLoader demo_response demo_loaded
      "[demo_lookup ''gcp'']" "[demo_not_found]" demo_loaded]
    demo_load_served ok later
  have first: "getProvider demo_library demo_host ''aws'' demo_loaded
       = Returns ((resp_provider demo_response, None), demo_loaded)"
    by (simp add: demo_load_def)
  from lookup_after_load [of demo_library demo_host "''gcp''" _ _ _ _ _ _ _ _
      "[demo_load]" "[demo_response]" demo_loaded] loads none
  have second: "getProvider demo_library demo_host ''gcp'' demo_loaded
       = Returns ((None, Some ErrMissingProvider), demo_loaded)"
    by blast
  from first second demo_load_served later show ?thesis
    by (simp add: demo_response_def ErrMissingProvider_def)
qed

text \<open>
  Claim C10. A load request for \<open>U\<close> that comes back with validation failures or with a hard
  error leaves the table \<open>providers\<close> as it was, and the next lookup of \<open>U\<close> fails with
  \<open>ErrMissingProvider\<close>.
\<close>

theorem failed_load_leaves_table:
  assumes "serve_request L H \<lparr>req_urn = U, req_properties = Some kvs, req_allowUnknowns = au\<rparr> p
             = Returns (resp, p')"
    and "resp_failures resp \<noteq> [] \<or> resp_err resp \<noteq> None"
  shows "providers p' = providers p
       \<and> getProvider L H U p' = Returns ((None, Some ErrMissingProvider), p')"
proof -
  let ?req = "\<lparr>req_urn = U, req_properties = Some kvs, req_allowUnknowns = au\<rparr>"
  have rp: "req_properties ?req = Some kvs" by simp
  from serve_request_load(1) [OF rp assms(1)] have absent: "providers p U = None" by simp
  from serve_request_load(3) [OF rp assms(1)] assms(2) have same: "providers p' = providers p"
    by blast
  with absent show ?thesis by (simp add: getProvider_eq)
qed

text \<open>
  Instances of C10: a load with a property that is not a string (a validation failure), and
  a load of a package the host does not have (a hard error).
\<close>

theorem failed_load_leaves_table_witness:
  "serve_request demo_library demo_host demo_bad_load newProviderLoader
       = Returns (demo_bad_response, newProviderLoader)
   \<and> getProvider demo_library demo_host ''aws'' newProviderLoader
       = Returns ((None, Some ErrMissingProvider), newProviderLoader)
   \<and> serve_request demo_library demo_host
        \<lparr>req_urn = ''gone'', req_properties = Some [], req_allowUnknowns = False\<rparr> newProviderLoader
       = Returns (demo_gone_response, demo_gone_loader)
   \<and> getProvider demo_library demo_host ''gone'' demo_gone_loader
       = Returns ((None, Some ErrMissingProvider), demo_gone_loader)"
proof -
  have bad: "serve_request demo_library demo_host
        \<lparr>req_urn = ''aws'', req_properties = Some [(''region'', PBool True)],
          req_allowUnknowns = False\<rparr> newProviderLoader
       = Returns (demo_bad_response, newProviderLoader)"
    by (simp add: Let_def serve_request_def contract_Assert_def newProviderLoader_def
        loadProvider_def requestedVersion_def index_def entries_def
        demo_library_def demo_bad_response_def)
  have gone: "serve_request demo_library demo_host
        \<lparr>req_urn = ''gone'', req_properties = Some [], req_allowUnknowns = False\<rparr> newProviderLoader
       = Returns (demo_gone_response, demo_gone_loader)"
    by (simp add: Let_def serve_request_def contract_Assert_def newProviderLoader_def
        loadProvider_def requestedVersion_def index_def entries_def loadProviderRaw_def
        demo_library_def demo_host_def demo_gone_response_def demo_gone_loader_def)
  have f1: "resp_failures demo_bad_response \<noteq> [] \<or> resp_err demo_bad_response \<noteq> None"
    by (simp add: demo_bad_response_def)
  have f2: "resp_failures demo_gone_response \<noteq> [] \<or> resp_err demo_gone_response \<noteq> None"
    by (simp add: demo_gone_response_def)
  from failed_load_leaves_table [OF bad f1] failed_load_leaves_table [OF gone f2] bad gone
  show ?thesis by (simp add: demo_bad_load_def)
qed

section \<open>The step generator: proofs\<close>

subsection \<open>What validation leaves unchanged\<close>

lemma issueCheckErrors_frame:
  "issueCheckErrors L new u fs sg = (b, sg') \<Longrightarrow>
     sets sg' = sets sg \<and> trace sg' = trace sg \<and> b = (fs \<noteq> [])"
  by (auto simp: issueCheckErrors_def sets_def split: if_splits)

lemma provider_frame:
  "provider L P t sg = (r, sg') \<Longrightarrow> sets sg' = sets sg \<and> diff_calls sg' = diff_calls sg"
  by (auto simp: provider_def Let_def sets_def diff_calls_def split: sum.splits option.splits)

lemma check_frame:
  assumes "GenerateSteps_check L H u goal oldInputs prov refresh au recreating locals sg = r"
  shows "(\<forall>err sg'. r = Inl (err, sg') \<longrightarrow> sets sg' = sets sg \<and> diff_calls sg' = diff_calls sg)
       \<and> (\<forall>loc sg'. r = Inr (loc, sg') \<longrightarrow> sets sg' = sets sg \<and> diff_calls sg' = diff_calls sg)"
proof -
  obtain props inputs new invalid where l: "locals = (props, inputs, new, invalid)"
    by (cases locals) auto
  show ?thesis
  proof (cases prov)
    case None
    with assms l show ?thesis by (auto simp: GenerateSteps_check_def)
  next
    case (Some pr)
    show ?thesis
    proof (cases refresh)
      case True
      with assms l Some show ?thesis by (auto simp: GenerateSteps_check_def)
    next
      case False
      let ?olds = "if recreating then None else oldInputs"
      let ?news = "if recreating then gProperties goal else inputs"
      let ?sg1 = "sg\<lparr>trace := trace sg @ [CallCheck pr u ?olds ?news au]\<rparr>"
      have f1: "sets ?sg1 = sets sg \<and> diff_calls ?sg1 = diff_calls sg"
        by (simp add: sets_def diff_calls_def)
      show ?thesis
      proof (cases "Provider_Check H pr u ?olds ?news au")
        case (Inl err)
        with assms l Some False f1 show ?thesis
          by (auto simp: GenerateSteps_check_def Let_def)
      next
        case (Inr res)
        obtain inputs' failures where res: "res = (inputs', failures)" by (cases res)
        obtain bad sg2 where ice: "issueCheckErrors L new u failures ?sg1 = (bad, sg2)"
          by (cases "issueCheckErrors L new u failures ?sg1")
        from issueCheckErrors_frame [OF ice] f1
        have "sets sg2 = sets sg \<and> diff_calls sg2 = diff_calls sg"
          by (simp add: diff_calls_def)
        with assms l Some False Inr res ice show ?thesis
          by (auto simp: GenerateSteps_check_def Let_def)
      qed
    qed
  qed
qed

lemma runAnalyzers_frame:
  "(\<forall>err sg'. runAnalyzers H u new props as (invalid, sg) = Inl (err, sg') \<longrightarrow>
        sets sg' = sets sg \<and> diff_calls sg' = diff_calls sg)
   \<and> (\<forall>inv sg'. runAnalyzers H u new props as (invalid, sg) = Inr (inv, sg') \<longrightarrow>
        sets sg' = sets sg \<and> diff_calls sg' = diff_calls sg)"
proof (induction as arbitrary: invalid sg)
  case Nil
  then show ?case by simp
next
  case (Cons a as)
  show ?case
  proof (cases "host_Analyzer H a")
    case (Inl err)
    then show ?thesis by (simp add: sets_def diff_calls_def)
  next
    case (Inr ao)
    show ?thesis
    proof (cases ao)
      case None
      with Inr show ?thesis by (simp add: sets_def diff_calls_def)
    next
      case (Some analyzer)
      show ?thesis
      proof (cases "analyzer_Analyze H analyzer (Type new) props")
        case (Inl err)
        with Inr Some show ?thesis by (simp add: sets_def diff_calls_def)
      next
        case r: (Inr failures)
        let ?sg1 = "sg\<lparr>trace := trace sg @ [CallHostAnalyzer a,
                                           CallAnalyze analyzer (Type new) props],
                     sink := sink sg @
                       map (\<lambda>failure. AnalyzeResourceFailureError u a (af_Property failure)
                                         (af_Reason failure)) failures\<rparr>"
        have f: "sets ?sg1 = sets sg \<and> diff_calls ?sg1 = diff_calls sg"
          by (simp add: sets_def diff_calls_def)
        from Cons.IH [of "invalid \<or> failures \<noteq> []" ?sg1] f Inr Some r show ?thesis
          by simp
      qed
    qed
  qed
qed

lemma validate_frame:
  assumes "GenerateSteps_validate L H P event sg = r"
  shows "(\<forall>err sg'. r = Inl (err, sg') \<longrightarrow> sets sg' = sets sg \<and> diff_calls sg' = diff_calls sg)
       \<and> (\<forall>props inputs outputs new prov recreating sg'.
            r = Inr (props, inputs, outputs, new, prov, recreating, sg') \<longrightarrow>
            sets sg' = sets sg \<and> diff_calls sg' = diff_calls sg
            \<and> recreating = (deletes sg (generateURN L P event) \<noteq> None))"
proof -
  let ?goal = "Goal event"
  let ?u = "generateURN L P event"
  let ?sg1 = "if flag (urns sg) ?u then sg\<lparr>sink := sink sg @ [DuplicateResourceURNError ?u]\<rparr> else sg"
  let ?oldInputs = "case Olds P ?u of Some old \<Rightarrow> Inputs old | None \<Rightarrow> None"
  have f1: "sets ?sg1 = sets sg \<and> diff_calls ?sg1 = diff_calls sg"
    by (simp add: sets_def diff_calls_def)
  obtain props inputs outputs new where g:
    "getResourcePropertyStates P ?u ?goal = (props, inputs, outputs, new)"
    using prod_cases4 by blast
  define pr where "pr = (if gCustom ?goal then
                      (case provider L P (gType ?goal) ?sg1 of
                         (Inl err, sg2) \<Rightarrow> Inl (err, sg2)
                       | (Inr prov, sg2) \<Rightarrow> Inr (Some prov, sg2))
                    else Inr (None, ?sg1))"
  have f2: "(\<forall>err sg'. pr = Inl (err, sg') \<longrightarrow> sets sg' = sets sg \<and> diff_calls sg' = diff_calls sg)
       \<and> (\<forall>prov sg'. pr = Inr (prov, sg') \<longrightarrow> sets sg' = sets sg \<and> diff_calls sg' = diff_calls sg)"
  proof (cases "gCustom ?goal")
    case False
    with f1 show ?thesis by (simp add: pr_def)
  next
    case True
    obtain x sg2 where p: "provider L P (gType ?goal) ?sg1 = (x, sg2)"
      by (cases "provider L P (gType ?goal) ?sg1")
    from provider_frame [OF p] f1 have "sets sg2 = sets sg \<and> diff_calls sg2 = diff_calls sg"
      by simp
    with True p show ?thesis by (cases x) (auto simp: pr_def)
  qed
  define chk where "chk = (\<lambda>prov (sg2::stepGenerator). GenerateSteps_check L H ?u ?goal ?oldInputs prov (IsRefresh P)
        (preview P \<and> \<not> IsRefresh P) (deletes sg2 ?u \<noteq> None)
        (props, inputs, new, flag (urns sg) ?u) sg2)"
  define rcr where "rcr = (\<lambda>sg2::stepGenerator. deletes sg2 ?u \<noteq> None)"
  have unfold: "r = (case pr of
                Inl failed \<Rightarrow> Inl failed
              | Inr (prov, sg2) \<Rightarrow>
                  (case chk prov sg2 of
                        Inl failed \<Rightarrow> Inl failed
                      | Inr ((props, inputs, new, invalid), sg3) \<Rightarrow>
                          (case runAnalyzers H ?u new props (analyzers P) (invalid, sg3) of
                             Inl failed \<Rightarrow> Inl failed
                           | Inr (invalid, sg4) \<Rightarrow>
                               (if invalid then
                                  Inl (New ''One or more resource validation errors occurred; refusing to proceed'',
                                       sg4)
                                else Inr (props, inputs, outputs, new, prov, rcr sg2, sg4)))))"
    using assms g unfolding GenerateSteps_validate_def pr_def chk_def rcr_def Let_def by simp
  show ?thesis
  proof (cases pr)
    case (Inl failed)
    with unfold f2 show ?thesis by (cases failed) auto
  next
    case (Inr ok)
    obtain prov sg2 where ok: "ok = (prov, sg2)" by (cases ok)
    from f2 Inr ok have s2: "sets sg2 = sets sg" "diff_calls sg2 = diff_calls sg" by auto
    then have d2: "rcr sg2 = (deletes sg ?u \<noteq> None)" by (simp add: sets_def rcr_def)
    from check_frame [of L H ?u ?goal ?oldInputs prov "IsRefresh P" "preview P \<and> \<not> IsRefresh P"
        "deletes sg2 ?u \<noteq> None" "(props, inputs, new, flag (urns sg) ?u)" sg2 "chk prov sg2"] s2
    have f3: "(\<forall>err sg'. chk prov sg2 = Inl (err, sg') \<longrightarrow> sets sg' = sets sg \<and> diff_calls sg' = diff_calls sg)
       \<and> (\<forall>loc sg'. chk prov sg2 = Inr (loc, sg') \<longrightarrow> sets sg' = sets sg \<and> diff_calls sg' = diff_calls sg)"
      unfolding chk_def by simp
    show ?thesis
    proof (cases "chk prov sg2")
      case (Inl failed)
      with unfold Inr ok f3 show ?thesis
        by (cases failed) auto
    next
      case r: (Inr res)
      obtain props' inputs' new' invalid' sg3 where res:
        "res = ((props', inputs', new', invalid'), sg3)"
        by (metis prod_cases4 surj_pair)
      from f3 r res have s3: "sets sg3 = sets sg" "diff_calls sg3 = diff_calls sg" by auto
      from runAnalyzers_frame [of H ?u new' props' "analyzers P" invalid' sg3] s3
      have f4: "(\<forall>err sg'. runAnalyzers H ?u new' props' (analyzers P) (invalid', sg3) = Inl (err, sg') \<longrightarrow>
            sets sg' = sets sg \<and> diff_calls sg' = diff_calls sg)
         \<and> (\<forall>inv sg'. runAnalyzers H ?u new' props' (analyzers P) (invalid', sg3) = Inr (inv, sg') \<longrightarrow>
            sets sg' = sets sg \<and> diff_calls sg' = diff_calls sg)"
        by simp
      show ?thesis
      proof (cases "runAnalyzers H ?u new' props' (analyzers P) (invalid', sg3)")
        case (Inl failed)
        with unfold Inr ok r res f4 show ?thesis
          by (cases failed) auto
      next
        case ra: (Inr fin)
        obtain inv sg4 where fin: "fin = (inv, sg4)" by (cases fin)
        from f4 ra fin have "sets sg4 = sets sg \<and> diff_calls sg4 = diff_calls sg" by auto
        with unfold Inr ok r res ra fin d2 show ?thesis
          by (auto split: if_splits)
      qed
    qed
  qed
qed

lemma sets_simps:
  "sets sg' = sets sg \<Longrightarrow> urns sg' = urns sg \<and> deletes sg' = deletes sg
     \<and> replaces sg' = replaces sg \<and> updates sg' = updates sg \<and> creates sg' = creates sg
     \<and> sames sg' = sames sg"
  by (simp add: sets_def)

lemma GenerateSteps_valid:
  "GenerateSteps_validate L H P event sg = Inr (props, inputs, outputs, new, prov, recreating, sg')
   \<Longrightarrow> GenerateSteps L H P event sg =
         GenerateSteps_dispatch L H P event props inputs outputs new prov recreating sg'"
  by (simp add: GenerateSteps_def)

subsection \<open>The set of URNs\<close>

lemma deleteDependents_urns:
  "urns (snd (deleteDependents u ds (steps, sg))) = urns sg"
  by (induction ds arbitrary: steps sg) simp_all

lemma replace_urns:
  "GenerateSteps_replace L H P event u old new prov d sg = Returns (r, sg') \<Longrightarrow> urns sg' = urns sg"
proof -
  assume a: "GenerateSteps_replace L H P event u old new prov d sg = Returns (r, sg')"
  have ice: "\<And>n fs s b s'. issueCheckErrors L n u fs s = (b, s') \<Longrightarrow> urns s' = urns s"
    by (auto simp: issueCheckErrors_def split: if_splits)
  have dd: "\<And>ds st s st' s'. deleteDependents u ds (st, s) = (st', s') \<Longrightarrow> urns s' = urns s"
    using deleteDependents_urns by (metis snd_conv)
  from a show ?thesis
    by (auto simp: GenerateSteps_replace_def Let_def
             split: option.splits if_splits sum.splits prod.splits dest!: ice dd)
qed

text \<open>No call of \<open>GenerateSteps\<close> that returns changes the set \<open>urns\<close>.\<close>

lemma GenerateSteps_urns:
  assumes "GenerateSteps L H P event sg = Returns (r, sg')"
  shows "urns sg' = urns sg"
proof (cases "GenerateSteps_validate L H P event sg")
  case (Inl failed)
  obtain err s where f: "failed = (err, s)" by (cases failed)
  from validate_frame [OF Inl] f have "sets s = sets sg" by simp
  with assms Inl f show ?thesis by (simp add: GenerateSteps_def sets_def)
next
  case (Inr ok)
  obtain props inputs outputs new prov recreating s where ok:
    "ok = (props, inputs, outputs, new, prov, recreating, s)"
    by (metis prod_cases4 prod_cases3)
  from validate_frame [OF Inr] ok have "sets s = sets sg" by simp
  then have s: "urns s = urns sg" by (simp add: sets_def)
  from assms Inr ok have d:
    "GenerateSteps_dispatch L H P event props inputs outputs new prov recreating s = Returns (r, sg')"
    by (simp add: GenerateSteps_def)
  have "urns sg' = urns s"
    using d
    by (auto simp: GenerateSteps_dispatch_def Let_def contract_Assert_def
             split: option.splits if_splits sum.splits prod.splits dest!: replace_urns)
  with s show ?thesis by simp
qed

text \<open>An instance: after the registration of a new resource \<open>urns\<close> is still empty.\<close>

theorem GenerateSteps_urns_witness:
  "GenerateSteps demo_library demo_host demo_plan (demo_event ''n'' None False) newStepGenerator
     = Returns (Inr [NewCreateStep (demo_event ''n'' None False) (demo_new ''n'' None False)],
                demo_sg_created)
   \<and> urns demo_sg_created = urns newStepGenerator"
proof -
  have run: "GenerateSteps demo_library demo_host demo_plan (demo_event ''n'' None False)
      newStepGenerator
     = Returns (Inr [NewCreateStep (demo_event ''n'' None False) (demo_new ''n'' None False)],
                demo_sg_created)"
    by (simp add: model_defs demo_defs demo_sg_created_def)
  from GenerateSteps_urns [OF run] run show ?thesis by simp
qed

text \<open>
  Claim C1 says that the second of two registrations that resolve to the same URN is
  rejected with the validation error, the URN of the first staying in \<open>urns\<close>. The code
  reads \<open>sg.urns[urn]\<close> and has no assignment to the map: as shown above, every call
  leaves \<open>urns\<close> as it was. Here the same resource is registered twice with a new generator:
  both calls return a Create step, nothing is sent to the sink, and \<open>urns\<close> is empty.
\<close>

theorem duplicate_urn_not_detected:
  "GenerateSteps demo_library demo_host demo_plan (demo_event ''n'' None False) newStepGenerator
     = Returns (Inr [NewCreateStep (demo_event ''n'' None False) (demo_new ''n'' None False)],
                demo_sg_created)
   \<and> GenerateSteps demo_library demo_host demo_plan (demo_event ''n'' None False) demo_sg_created
     = Returns (Inr [NewCreateStep (demo_event ''n'' None False) (demo_new ''n'' None False)],
                demo_sg_created)
   \<and> urns demo_sg_created = Map.empty \<and> sink demo_sg_created = []"
proof (intro conjI)
  show "GenerateSteps demo_library demo_host demo_plan (demo_event ''n'' None False)
      newStepGenerator
     = Returns (Inr [NewCreateStep (demo_event ''n'' None False) (demo_new ''n'' None False)],
                demo_sg_created)"
    by (simp add: model_defs demo_defs demo_sg_created_def)
  show "GenerateSteps demo_library demo_host demo_plan (demo_event ''n'' None False)
      demo_sg_created
     = Returns (Inr [NewCreateStep (demo_event ''n'' None False) (demo_new ''n'' None False)],
                demo_sg_created)"
    by (simp add: model_defs demo_defs demo_sg_created_def)
  show "urns demo_sg_created = Map.empty" and "sink demo_sg_created = []"
    by (simp_all add: demo_sg_created_def newStepGenerator_def)
qed

subsection \<open>Delete before replace\<close>

text \<open>
  The guard of the loop over the dependents reads the flag of the resource that is replaced.
  When that flag is not set and no dependent has the URN of that resource, every dependent
  gets its step, whatever \<open>deletes\<close> says about it.
\<close>

lemma deleteDependents_acc:
  "\<not> flag (deletes sg) u \<Longrightarrow> u \<notin> URN ` set ds \<Longrightarrow>
   fst (deleteDependents u ds (steps, sg)) = steps @ map (\<lambda>r. NewDeleteReplacementStep r False) ds"
proof (induction ds arbitrary: steps sg)
  case Nil
  then show ?case by simp
next
  case (Cons d ds)
  let ?sg' = "sg\<lparr>deletes := (deletes sg)(URN d \<mapsto> True)\<rparr>"
  from Cons.prems have "\<not> flag (deletes ?sg') u" by (auto simp: flag_def)
  from Cons.IH [OF this, of "steps @ [NewDeleteReplacementStep d False]"] Cons.prems
  show ?case by simp
qed

lemma demo_register_A:
  "GenerateSteps demo_library demo_host demo_plan (demo_event ''a'' (demo_props ''a2'') True)
      newStepGenerator
     = Returns (Inr [NewDeleteReplacementStep demo_C False,
                     NewDeleteReplacementStep demo_A False,
                     NewReplaceStep demo_A demo_new_A [''name''] False,
                     NewCreateReplacementStep (demo_event ''a'' (demo_props ''a2'') True)
                       demo_A demo_new_A [''name''] False],
                demo_sg_A)"
  by (simp add: model_defs demo_defs demo_sg_A_def demo_new_A_def)

text \<open>
  An instance: \<open>C\<close> is marked deleted after the cascade of \<open>A\<close>, and the loop run for \<open>B\<close>
  gives it a step again.
\<close>

theorem deleteDependents_acc_witness:
  "flag (deletes demo_sg_A) (URN demo_C)
   \<and> fst (deleteDependents ''t::b'' [demo_C] ([], demo_sg_A)) = [NewDeleteReplacementStep demo_C False]"
proof -
  have guard: "\<not> flag (deletes demo_sg_A) ''t::b''"
    by (simp add: demo_sg_A_def flag_def)
  have other: "''t::b'' \<notin> URN ` set [demo_C]"
    by (simp add: demo_defs NewState_def)
  have marked: "flag (deletes demo_sg_A) (URN demo_C)"
    by (simp add: demo_sg_A_def flag_def demo_defs NewState_def)
  from deleteDependents_acc [OF guard other, of "[]"] marked show ?thesis by simp
qed

text \<open>
  Claim C2 says that the delete steps of the dependents come before the one of the replaced
  resource, then Replace, then CreateReplacement, and that no URN gets two delete steps in
  one plan. Here \<open>C\<close> depends on both \<open>A\<close> and \<open>B\<close>, which are replaced with
  delete-before-replace. The registration of \<open>A\<close> returns the steps in the order claimed and
  marks \<open>C\<close> deleted; the registration of \<open>B\<close> returns a second DeleteReplacement step
  for \<open>C\<close>.
\<close>

theorem dependent_deleted_twice:
  "GenerateSteps demo_library demo_host demo_plan (demo_event ''a'' (demo_props ''a2'') True)
      newStepGenerator
     = Returns (Inr [NewDeleteReplacementStep demo_C False,
                     NewDeleteReplacementStep demo_A False,
                     NewReplaceStep demo_A demo_new_A [''name''] False,
                     NewCreateReplacementStep (demo_event ''a'' (demo_props ''a2'') True)
                       demo_A demo_new_A [''name''] False],
                demo_sg_A)
   \<and> flag (deletes demo_sg_A) (URN demo_C)
   \<and> GenerateSteps demo_library demo_host demo_plan (demo_event ''b'' (demo_props ''b2'') True)
      demo_sg_A
     = Returns (Inr [NewDeleteReplacementStep demo_C False,
                     NewDeleteReplacementStep demo_B False,
                     NewReplaceStep demo_B demo_new_B [''name''] False,
                     NewCreateReplacementStep (demo_event ''b'' (demo_props ''b2'') True)
                       demo_B demo_new_B [''name''] False],
                demo_sg_AB)"
proof (intro conjI)
  show "flag (deletes demo_sg_A) (URN demo_C)"
    by (simp add: demo_sg_A_def flag_def demo_defs NewState_def)
  show "GenerateSteps demo_library demo_host demo_plan (demo_event ''b'' (demo_props ''b2'') True)
      demo_sg_A
     = Returns (Inr [NewDeleteReplacementStep demo_C False,
                     NewDeleteReplacementStep demo_B False,
                     NewReplaceStep demo_B demo_new_B [''name''] False,
                     NewCreateReplacementStep (demo_event ''b'' (demo_props ''b2'') True)
                       demo_B demo_new_B [''name''] False],
                demo_sg_AB)"
    by (simp add: model_defs demo_defs demo_sg_A_def demo_sg_AB_def demo_new_B_def fun_upd_twist)
qed (rule demo_register_A)

subsection \<open>The diff and the dispatch\<close>

lemma diff_no_changes:
  "\<not> refresh \<Longrightarrow> DeepEquals L oldInputs newInputs \<Longrightarrow>
   diff L H u i oldInputs oldOutputs newInputs newOutputs newProps prov refresh au tr
     = (Inr (zero_DiffResult\<lparr>Changes := DiffNone\<rparr>), tr)"
  by (simp add: diff_def)

lemma diff_never_unknown:
  "diff L H u i oi oo ni no np prov refresh au tr = (Inr d, tr') \<Longrightarrow> Changes d \<noteq> DiffUnknown"
  by (auto simp: diff_def Let_def split: if_splits option.splits sum.splits)

lemma diff_unknown_to_some:
  assumes "if refresh then \<not> DeepEquals L oo no else \<not> DeepEquals L oi ni"
    and "Provider_Diff H pr u i oo np au = Inr d0" and "Changes d0 = DiffUnknown"
  shows "diff L H u i oi oo ni no np (Some pr) refresh au tr
           = (Inr (d0\<lparr>Changes := DiffSome\<rparr>), tr @ [CallDiff pr u i oo np au])"
  using assms by (auto simp: diff_def Let_def split: if_splits)

lemma dispatch_diffed:
  assumes "Olds P (generateURN L P event) = Some old" and "Type old = Type new"
    and "diff L H (generateURN L P event) (ID old) (Inputs old) (Outputs old) inputs outputs props
           prov (IsRefresh P) (preview P \<and> \<not> IsRefresh P) (trace sg) = (Inr d, tr)"
  shows "GenerateSteps_dispatch L H P event props inputs outputs new prov False sg =
     (if Changes d \<noteq> DiffNone \<and> Changes d \<noteq> DiffSome then
        Returns (Inl (Errorf ''unrecognized diff state for %s: %d''
                        [ArgString (generateURN L P event), ArgChanges (Changes d)]),
                 sg\<lparr>trace := tr\<rparr>)
      else if Changes d = DiffSome then
        (if Replace d then
           GenerateSteps_replace L H P event (generateURN L P event) old new prov d (sg\<lparr>trace := tr\<rparr>)
         else
           Returns (Inr [NewUpdateStep event old new (StableKeys d)],
                    sg\<lparr>trace := tr, updates := (updates sg)(generateURN L P event \<mapsto> True)\<rparr>))
      else
        Returns (Inr [NewSameStep event old new],
                 sg\<lparr>trace := tr, sames := (sames sg)(generateURN L P event \<mapsto> True)\<rparr>))"
  using assms by (simp add: GenerateSteps_dispatch_def Let_def contract_Assert_def)

lemma demo_urn:
  "generateURN demo_library demo_plan (demo_event name props custom) = ''t::'' @ name"
  by (simp add: generateURN_def demo_defs)

lemma demo_validate_O:
  "GenerateSteps_validate demo_library demo_host demo_plan
        (demo_event ''o'' (demo_props ''o2'') True) newStepGenerator
       = Inr (demo_props ''o2'', demo_props ''o2'', None, demo_new_O, Some (Plugin 7), False,
              demo_checked ''o'' (demo_props ''o1'') (demo_props ''o2'') newStepGenerator)"
  by (simp add: model_defs demo_defs demo_new_O_def demo_checked_def)

text \<open>
  Claim C4. A result of \<open>diff\<close> never has the indicator \<open>DiffUnknown\<close>: when the inputs have
  changed and the provider answers \<open>DiffUnknown\<close>, \<open>diff\<close> returns its answer with \<open>DiffSome\<close>.
  For a registration with old state that has passed validation and is not re-created: if
  the indicator of the diff is neither \<open>DiffNone\<close> nor \<open>DiffSome\<close>, \<open>GenerateSteps\<close> returns the
  error \<open>unrecognized diff state\<close> and no steps; so whenever it returns steps, the indicator
  is \<open>DiffNone\<close> or \<open>DiffSome\<close>.
\<close>

theorem diff_state_normalized:
  "(diff L H u i oi oo ni no np prov refresh au tra = (Inr da, trb) \<longrightarrow> Changes da \<noteq> DiffUnknown)
   \<and> ((if refresh then \<not> DeepEquals L oo no else \<not> DeepEquals L oi ni)
       \<and> Provider_Diff H pr u i oo np au = Inr db \<and> Changes db = DiffUnknown
      \<longrightarrow> diff L H u i oi oo ni no np (Some pr) refresh au tra
            = (Inr (db\<lparr>Changes := DiffSome\<rparr>), tra @ [CallDiff pr u i oo np au]))
   \<and> (GenerateSteps_validate L H P event sg
         = Inr (props, inputs, outputs, new, prov', False, sg')
       \<and> Olds P (generateURN L P event) = Some old \<and> Type old = Type new
       \<and> diff L H (generateURN L P event) (ID old) (Inputs old) (Outputs old) inputs outputs props
           prov' (IsRefresh P) (preview P \<and> \<not> IsRefresh P) (trace sg') = (Inr d, tr)
      \<longrightarrow> (Changes d \<noteq> DiffNone \<and> Changes d \<noteq> DiffSome
            \<longrightarrow> GenerateSteps L H P event sg =
                  Returns (Inl (Errorf ''unrecognized diff state for %s: %d''
                                  [ArgString (generateURN L P event), ArgChanges (Changes d)]),
                           sg'\<lparr>trace := tr\<rparr>))
        \<and> (\<forall>steps sg''. GenerateSteps L H P event sg = Returns (Inr steps, sg'')
            \<longrightarrow> Changes d = DiffNone \<or> Changes d = DiffSome))"
proof (intro conjI impI allI)
  assume "diff L H u i oi oo ni no np prov refresh au tra = (Inr da, trb)"
  then show "Changes da \<noteq> DiffUnknown" by (rule diff_never_unknown)
next
  assume "(if refresh then \<not> DeepEquals L oo no else \<not> DeepEquals L oi ni)
       \<and> Provider_Diff H pr u i oo np au = Inr db \<and> Changes db = DiffUnknown"
  then show "diff L H u i oi oo ni no np (Some pr) refresh au tra
            = (Inr (db\<lparr>Changes := DiffSome\<rparr>), tra @ [CallDiff pr u i oo np au])"
    using diff_unknown_to_some by blast
next
  assume a: "GenerateSteps_validate L H P event sg
         = Inr (props, inputs, outputs, new, prov', False, sg')
       \<and> Olds P (generateURN L P event) = Some old \<and> Type old = Type new
       \<and> diff L H (generateURN L P event) (ID old) (Inputs old) (Outputs old) inputs outputs props
           prov' (IsRefresh P) (preview P \<and> \<not> IsRefresh P) (trace sg') = (Inr d, tr)"
  then have eq: "GenerateSteps L H P event sg =
      GenerateSteps_dispatch L H P event props inputs outputs new prov' False sg'"
    by (simp add: GenerateSteps_valid)
  from a have o: "Olds P (generateURN L P event) = Some old" and t: "Type old = Type new"
    and dd: "diff L H (generateURN L P event) (ID old) (Inputs old) (Outputs old) inputs outputs
               props prov' (IsRefresh P) (preview P \<and> \<not> IsRefresh P) (trace sg') = (Inr d, tr)"
    by simp_all
  note disp = dispatch_diffed [OF o t dd]
  {
    assume "Changes d \<noteq> DiffNone \<and> Changes d \<noteq> DiffSome"
    with a eq disp show "GenerateSteps L H P event sg =
                  Returns (Inl (Errorf ''unrecognized diff state for %s: %d''
                                  [ArgString (generateURN L P event), ArgChanges (Changes d)]),
                           sg'\<lparr>trace := tr\<rparr>)"
      by simp
  }
  {
    fix steps sg''
    assume "GenerateSteps L H P event sg = Returns (Inr steps, sg'')"
    with a eq disp show "Changes d = DiffNone \<or> Changes d = DiffSome"
      by (auto split: if_splits)
  }
qed

text \<open>
  Instances of C4: a plugin that answers \<open>DiffUnknown\<close>, and one that answers with the
  indicator 7.
\<close>

theorem diff_state_normalized_witness:
  "diff demo_library demo_host ''t::c'' ''keep'' (demo_props ''c1'') None (demo_props ''c2'') None
       (demo_props ''c2'') (Some (Plugin 7)) False False []
     = (Inr (zero_DiffResult\<lparr>Changes := DiffSome\<rparr>),
        [] @ [CallDiff (Plugin 7) ''t::c'' ''keep'' None (demo_props ''c2'') False])
   \<and> GenerateSteps demo_library demo_host demo_plan (demo_event ''o'' (demo_props ''o2'') True)
        newStepGenerator
     = Returns (Inl (Errorf ''unrecognized diff state for %s: %d''
                       [ArgString ''t::o'', ArgChanges (DiffOther 7)]),
                demo_diffed ''o'' ''odd'' (demo_props ''o1'') (demo_props ''o2''))"
proof -
  let ?e = "demo_event ''o'' (demo_props ''o2'') True"
  have changed: "if False then \<not> DeepEquals demo_library None None
        else \<not> DeepEquals demo_library (demo_props ''c1'') (demo_props ''c2'')"
    by (simp add: demo_defs entries_def)
  have unknown: "Provider_Diff demo_host (Plugin 7) ''t::c'' ''keep'' None (demo_props ''c2'') False
      = Inr zero_DiffResult \<and> Changes zero_DiffResult = DiffUnknown"
    by (simp add: Provider_Diff_def demo_host_def zero_DiffResult_def)
  have old: "Olds demo_plan (generateURN demo_library demo_plan ?e) = Some demo_O"
    by (simp add: demo_urn) (simp add: demo_plan_def)
  have ty: "Type demo_O = Type demo_new_O"
    by (simp add: demo_defs demo_new_O_def NewState_def)
  have d: "diff demo_library demo_host (generateURN demo_library demo_plan ?e) (ID demo_O)
             (Inputs demo_O) (Outputs demo_O) (demo_props ''o2'') None (demo_props ''o2'')
             (Some (Plugin 7)) (IsRefresh demo_plan)
             (preview demo_plan \<and> \<not> IsRefresh demo_plan)
             (trace (demo_checked ''o'' (demo_props ''o1'') (demo_props ''o2'') newStepGenerator))
           = (Inr (zero_DiffResult\<lparr>Changes := DiffOther 7\<rparr>),
              trace (demo_diffed ''o'' ''odd'' (demo_props ''o1'') (demo_props ''o2'')))"
    by (simp add: demo_urn) (simp add: model_defs demo_defs demo_diffed_def demo_checked_def)
  have other: "Changes (zero_DiffResult\<lparr>Changes := DiffOther 7\<rparr>) \<noteq> DiffNone
             \<and> Changes (zero_DiffResult\<lparr>Changes := DiffOther 7\<rparr>) \<noteq> DiffSome"
    by simp
  note t = diff_state_normalized [where L = demo_library and H = demo_host and P = demo_plan
      and event = ?e and sg = newStepGenerator and old = demo_O and new = demo_new_O
      and d = "zero_DiffResult\<lparr>Changes := DiffOther 7\<rparr>"
      and tr = "trace (demo_diffed ''o'' ''odd'' (demo_props ''o1'') (demo_props ''o2''))"
      and props = "demo_props ''o2''" and inputs = "demo_props ''o2''" and outputs = None
      and prov' = "Some (Plugin 7)"
      and sg' = "demo_checked ''o'' (demo_props ''o1'') (demo_props ''o2'') newStepGenerator"
      and refresh = False and oo = None and no = None and oi = "demo_props ''c1''"
      and ni = "demo_props ''c2''" and pr = "Plugin 7" and u = "''t::c''" and i = "''keep''"
      and np = "demo_props ''c2''" and au = False and db = zero_DiffResult and tra = "[]"]
  from t changed unknown
  have first: "diff demo_library demo_host ''t::c'' ''keep'' (demo_props ''c1'') None
       (demo_props ''c2'') None (demo_props ''c2'') (Some (Plugin 7)) False False []
     = (Inr (zero_DiffResult\<lparr>Changes := DiffSome\<rparr>),
        [] @ [CallDiff (Plugin 7) ''t::c'' ''keep'' None (demo_props ''c2'') False])"
    by blast
  from t demo_validate_O old ty d other
  have "GenerateSteps demo_library demo_host demo_plan ?e newStepGenerator
     = Returns (Inl (Errorf ''unrecognized diff state for %s: %d''
                       [ArgString (generateURN demo_library demo_plan ?e),
                        ArgChanges (Changes (zero_DiffResult\<lparr>Changes := DiffOther 7\<rparr>))]),
                (demo_checked ''o'' (demo_props ''o1'') (demo_props ''o2'') newStepGenerator)
                  \<lparr>trace := trace (demo_diffed ''o'' ''odd'' (demo_props ''o1'') (demo_props ''o2''))\<rparr>)"
    by blast
  then have second: "GenerateSteps demo_library demo_host demo_plan ?e newStepGenerator
     = Returns (Inl (Errorf ''unrecognized diff state for %s: %d''
                       [ArgString ''t::o'', ArgChanges (DiffOther 7)]),
                demo_diffed ''o'' ''odd'' (demo_props ''o1'') (demo_props ''o2''))"
    by (simp add: demo_urn demo_diffed_def)
  from first second show ?thesis by blast
qed

subsection \<open>Unchanged inputs\<close>

text \<open>
  Claim C8 as stated fails for a resource that is re-created. \<open>C\<close> depends on \<open>A\<close>; the
  registration of \<open>A\<close>, replaced with delete-before-replace, marks \<open>C\<close> deleted. \<open>C\<close> is then
  registered with the inputs it had: validation passes, the checked inputs equal the old
  ones, and \<open>GenerateSteps\<close> returns Replace and CreateReplacement, with \<open>C\<close> under
  \<open>replaces\<close>, not a Same step.
\<close>

theorem same_step_counterexample:
  "GenerateSteps demo_library demo_host demo_plan (demo_event ''a'' (demo_props ''a2'') True)
      newStepGenerator
     = Returns (Inr [NewDeleteReplacementStep demo_C False,
                     NewDeleteReplacementStep demo_A False,
                     NewReplaceStep demo_A demo_new_A [''name''] False,
                     NewCreateReplacementStep (demo_event ''a'' (demo_props ''a2'') True)
                       demo_A demo_new_A [''name''] False],
                demo_sg_A)
   \<and> \<not> IsRefresh demo_plan
   \<and> Olds demo_plan (generateURN demo_library demo_plan (demo_event ''c'' (demo_props ''c1'') True))
       = Some demo_C
   \<and> GenerateSteps_validate demo_library demo_host demo_plan
        (demo_event ''c'' (demo_props ''c1'') True) demo_sg_A
       = Inr (demo_props ''c1'', demo_props ''c1'', None, demo_new_C, Some (Plugin 7), True,
              demo_checked ''c'' None (demo_props ''c1'') demo_sg_A)
   \<and> DeepEquals demo_library (Inputs demo_C) (demo_props ''c1'')
   \<and> GenerateSteps demo_library demo_host demo_plan (demo_event ''c'' (demo_props ''c1'') True)
        demo_sg_A
       = Returns (Inr [NewReplaceStep demo_C demo_new_C [] False,
                       NewCreateReplacementStep (demo_event ''c'' (demo_props ''c1'') True)
                         demo_C demo_new_C [] False],
                  (demo_checked ''c'' None (demo_props ''c1'') demo_sg_A)
                     \<lparr>deletes := Map.empty, replaces := [''t::a'' \<mapsto> True, ''t::c'' \<mapsto> True]\<rparr>)"
proof (intro conjI)
  show "GenerateSteps demo_library demo_host demo_plan (demo_event ''a'' (demo_props ''a2'') True)
      newStepGenerator
     = Returns (Inr [NewDeleteReplacementStep demo_C False,
                     NewDeleteReplacementStep demo_A False,
                     NewReplaceStep demo_A demo_new_A [''name''] False,
                     NewCreateReplacementStep (demo_event ''a'' (demo_props ''a2'') True)
                       demo_A demo_new_A [''name''] False],
                demo_sg_A)"
    by (rule demo_register_A)
  show "GenerateSteps_validate demo_library demo_host demo_plan
        (demo_event ''c'' (demo_props ''c1'') True) demo_sg_A
       = Inr (demo_props ''c1'', demo_props ''c1'', None, demo_new_C, Some (Plugin 7), True,
              demo_checked ''c'' None (demo_props ''c1'') demo_sg_A)"
    by (auto simp add: model_defs demo_defs demo_sg_A_def demo_new_C_def demo_checked_def)
  show "GenerateSteps demo_library demo_host demo_plan (demo_event ''c'' (demo_props ''c1'') True)
        demo_sg_A
       = Returns (Inr [NewReplaceStep demo_C demo_new_C [] False,
                       NewCreateReplacementStep (demo_event ''c'' (demo_props ''c1'') True)
                         demo_C demo_new_C [] False],
                  (demo_checked ''c'' None (demo_props ''c1'') demo_sg_A)
                     \<lparr>deletes := Map.empty, replaces := [''t::a'' \<mapsto> True, ''t::c'' \<mapsto> True]\<rparr>)"
    by (auto simp add: model_defs demo_defs demo_sg_A_def demo_new_C_def demo_checked_def)
qed (simp_all add: demo_defs generateURN_def NewState_def Let_def entries_def)

lemma demo_validate_C:
  "GenerateSteps_validate demo_library demo_host demo_plan
        (demo_event ''c'' (demo_props ''c1'') True) newStepGenerator
       = Inr (demo_props ''c1'', demo_props ''c1'', None, demo_new_C, Some (Plugin 7), False,
              demo_checked ''c'' (demo_props ''c1'') (demo_props ''c1'') newStepGenerator)"
  by (simp add: model_defs demo_defs demo_new_C_def demo_checked_def)

text \<open>
  Claim C8, amended. For a registration that is not a refresh, has passed validation, has old
  state of its own type, is not marked deleted in this plan and has checked inputs deeply
  equal to the old inputs, \<open>GenerateSteps\<close> returns exactly one Same step, sets the URN in
  \<open>sames\<close>, leaves the other four sets as they were (the URN is not in \<open>deletes\<close>), and makes no
  call of the provider's \<open>Diff\<close>.
\<close>

theorem same_step_unchanged_inputs:
  assumes valid: "GenerateSteps_validate L H P event sg
                    = Inr (props, inputs, outputs, new, prov, recreating, sg')"
    and nonrefresh: "\<not> IsRefresh P"
    and old: "Olds P (generateURN L P event) = Some old"
    and live: "deletes sg (generateURN L P event) = None"
    and ty: "Type old = Type new"
    and eq: "DeepEquals L (Inputs old) inputs"
  shows "\<exists>sg''. GenerateSteps L H P event sg = Returns (Inr [NewSameStep event old new], sg'')
           \<and> sames sg'' = (sames sg)(generateURN L P event \<mapsto> True)
           \<and> creates sg'' = creates sg \<and> updates sg'' = updates sg
           \<and> replaces sg'' = replaces sg \<and> deletes sg'' = deletes sg
           \<and> deletes sg'' (generateURN L P event) = None
           \<and> diff_calls sg'' = diff_calls sg"
proof -
  from validate_frame [OF valid] have fr: "sets sg' = sets sg" "diff_calls sg' = diff_calls sg"
    and rc: "recreating = (deletes sg (generateURN L P event) \<noteq> None)"
    by auto
  from rc live have nr: "recreating = False" by simp
  from diff_no_changes [OF nonrefresh eq]
  have d: "diff L H (generateURN L P event) (ID old) (Inputs old) (Outputs old) inputs outputs props
           prov (IsRefresh P) (preview P \<and> \<not> IsRefresh P) (trace sg')
         = (Inr (zero_DiffResult\<lparr>Changes := DiffNone\<rparr>), trace sg')" .
  from GenerateSteps_valid [OF valid] nr dispatch_diffed [OF old ty d]
  have "GenerateSteps L H P event sg =
      Returns (Inr [NewSameStep event old new],
               sg'\<lparr>trace := trace sg', sames := (sames sg')(generateURN L P event \<mapsto> True)\<rparr>)"
    by simp
  moreover from sets_simps [OF fr(1)] fr(2) live
  have "sames (sg'\<lparr>trace := trace sg', sames := (sames sg')(generateURN L P event \<mapsto> True)\<rparr>)
          = (sames sg)(generateURN L P event \<mapsto> True)
      \<and> creates (sg'\<lparr>trace := trace sg', sames := (sames sg')(generateURN L P event \<mapsto> True)\<rparr>)
          = creates sg
      \<and> updates (sg'\<lparr>trace := trace sg', sames := (sames sg')(generateURN L P event \<mapsto> True)\<rparr>)
          = updates sg
      \<and> replaces (sg'\<lparr>trace := trace sg', sames := (sames sg')(generateURN L P event \<mapsto> True)\<rparr>)
          = replaces sg
      \<and> deletes (sg'\<lparr>trace := trace sg', sames := (sames sg')(generateURN L P event \<mapsto> True)\<rparr>)
          = deletes sg
      \<and> deletes (sg'\<lparr>trace := trace sg', sames := (sames sg')(generateURN L P event \<mapsto> True)\<rparr>)
          (generateURN L P event) = None
      \<and> diff_calls (sg'\<lparr>trace := trace sg', sames := (sames sg')(generateURN L P event \<mapsto> True)\<rparr>)
          = diff_calls sg"
    by (simp add: diff_calls_def)
  ultimately show ?thesis by blast
qed

text \<open>An instance of C8 as amended: \<open>C\<close> registered with the inputs it had, in a new generator.\<close>

theorem same_step_unchanged_inputs_witness:
  "GenerateSteps demo_library demo_host demo_plan (demo_event ''c'' (demo_props ''c1'') True)
      newStepGenerator
     = Returns (Inr [NewSameStep (demo_event ''c'' (demo_props ''c1'') True) demo_C demo_new_C],
                (demo_checked ''c'' (demo_props ''c1'') (demo_props ''c1'') newStepGenerator)
                   \<lparr>sames := [''t::c'' \<mapsto> True]\<rparr>)"
proof -
  have u: "generateURN demo_library demo_plan (demo_event ''c'' (demo_props ''c1'') True) = ''t::c''"
    by (simp add: generateURN_def demo_defs)
  have nonrefresh: "\<not> IsRefresh demo_plan" by (simp add: demo_defs)
  have old: "Olds demo_plan (generateURN demo_library demo_plan
               (demo_event ''c'' (demo_props ''c1'') True)) = Some demo_C"
    by (simp add: u) (simp add: demo_plan_def)
  have live: "deletes newStepGenerator (generateURN demo_library demo_plan
               (demo_event ''c'' (demo_props ''c1'') True)) = None"
    by (simp add: newStepGenerator_def)
  have ty: "Type demo_C = Type demo_new_C"
    by (simp add: demo_defs demo_new_C_def NewState_def)
  have eq: "DeepEquals demo_library (Inputs demo_C) (demo_props ''c1'')"
    by (simp add: demo_defs NewState_def)
  from same_step_unchanged_inputs [OF demo_validate_C nonrefresh old live ty eq]
  obtain sg'' where
    "GenerateSteps demo_library demo_host demo_plan (demo_event ''c'' (demo_props ''c1'') True)
      newStepGenerator
     = Returns (Inr [NewSameStep (demo_event ''c'' (demo_props ''c1'') True) demo_C demo_new_C], sg'')"
    by blast
  moreover have "GenerateSteps demo_library demo_host demo_plan (demo_event ''c'' (demo_props ''c1'') True)
      newStepGenerator
     = Returns (Inr [NewSameStep (demo_event ''c'' (demo_props ''c1'') True) demo_C demo_new_C],
                (demo_checked ''c'' (demo_props ''c1'') (demo_props ''c1'') newStepGenerator)
                   \<lparr>sames := [''t::c'' \<mapsto> True]\<rparr>)"
    by (simp add: model_defs demo_defs demo_new_C_def demo_checked_def)
  ultimately show ?thesis by simp
qed

subsection \<open>Replacement, create before delete\<close>

lemma demo_validate_D:
  "GenerateSteps_validate demo_library demo_host demo_plan
        (demo_event ''d'' (demo_props ''d2'') True) newStepGenerator
       = Inr (demo_props ''d2'', demo_props ''d2'', None, demo_new_D, Some (Plugin 7), False,
              demo_checked ''d'' (demo_props ''d1'') (demo_props ''d2'') newStepGenerator)"
  by (simp add: model_defs demo_defs demo_new_D_def demo_checked_def)

text \<open>
  Claim C9 as stated fails when the second \<open>Check\<close> fails. \<open>D\<close> is registered with a new
  name; validation passes and the diff requires replacement without delete-before-replace.
  Before the steps are built the generator checks the inputs again, against no old inputs;
  here the plugin reports a failure, and \<open>GenerateSteps\<close> returns the validation error and no
  steps (the URN is under \<open>replaces\<close> by then).
\<close>

theorem replace_create_before_delete_counterexample:
  "Olds demo_plan (generateURN demo_library demo_plan (demo_event ''d'' (demo_props ''taken'') True))
       = Some demo_D
   \<and> GenerateSteps_validate demo_library demo_host demo_plan
        (demo_event ''d'' (demo_props ''taken'') True) newStepGenerator
       = Inr (demo_props ''taken'', demo_props ''taken'', None, demo_new_taken, Some (Plugin 7),
              False,
              demo_checked ''d'' (demo_props ''d1'') (demo_props ''taken'') newStepGenerator)
   \<and> diff demo_library demo_host ''t::d'' (ID demo_D) (Inputs demo_D) (Outputs demo_D)
        (demo_props ''taken'') None (demo_props ''taken'') (Some (Plugin 7)) False False
        (trace (demo_checked ''d'' (demo_props ''d1'') (demo_props ''taken'') newStepGenerator))
       = (Inr (demo_replacement False),
          trace (demo_diffed ''d'' ''cbd'' (demo_props ''d1'') (demo_props ''taken'')))
   \<and> Changes (demo_replacement False) = DiffSome \<and> Replace (demo_replacement False)
   \<and> \<not> DeleteBeforeReplace (demo_replacement False)
   \<and> GenerateSteps demo_library demo_host demo_plan (demo_event ''d'' (demo_props ''taken'') True)
        newStepGenerator
       = Returns (Inl (New ''One or more resource validation errors occurred; refusing to proceed''),
                  demo_sg_taken)"
proof (intro conjI)
  show "Olds demo_plan (generateURN demo_library demo_plan
          (demo_event ''d'' (demo_props ''taken'') True)) = Some demo_D"
    by (simp add: demo_urn) (simp add: demo_plan_def)
  show "GenerateSteps_validate demo_library demo_host demo_plan
        (demo_event ''d'' (demo_props ''taken'') True) newStepGenerator
       = Inr (demo_props ''taken'', demo_props ''taken'', None, demo_new_taken, Some (Plugin 7),
              False,
              demo_checked ''d'' (demo_props ''d1'') (demo_props ''taken'') newStepGenerator)"
    by (simp add: model_defs demo_defs demo_new_taken_def demo_checked_def)
  show "diff demo_library demo_host ''t::d'' (ID demo_D) (Inputs demo_D) (Outputs demo_D)
        (demo_props ''taken'') None (demo_props ''taken'') (Some (Plugin 7)) False False
        (trace (demo_checked ''d'' (demo_props ''d1'') (demo_props ''taken'') newStepGenerator))
       = (Inr (demo_replacement False),
          trace (demo_diffed ''d'' ''cbd'' (demo_props ''d1'') (demo_props ''taken'')))"
    by (simp add: model_defs demo_defs demo_diffed_def demo_checked_def)
  show "GenerateSteps demo_library demo_host demo_plan (demo_event ''d'' (demo_props ''taken'') True)
        newStepGenerator
       = Returns (Inl (New ''One or more resource validation errors occurred; refusing to proceed''),
                  demo_sg_taken)"
    by (simp add: model_defs demo_defs demo_sg_taken_def)
qed (simp_all add: demo_replacement_def Replace_def)

text \<open>
  Claim C9, amended. For a registration with old state that has passed validation, whose diff
  has changes, requires replacement and does not ask for delete-before-replace, and whose
  second \<open>Check\<close> (against no old inputs; made when there is a provider and the plan is no
  refresh) reports neither error nor failure, \<open>GenerateSteps\<close> returns exactly
  CreateReplacement then Replace, sets the URN in \<open>replaces\<close> and leaves \<open>deletes\<close> and the
  other sets as they were: no delete step is among the two.
\<close>

theorem replace_create_before_delete:
  assumes valid: "GenerateSteps_validate L H P event sg
                    = Inr (props, inputs, outputs, new, prov, False, sg')"
    and old: "Olds P (generateURN L P event) = Some old"
    and ty: "Type old = Type new"
    and d: "diff L H (generateURN L P event) (ID old) (Inputs old) (Outputs old) inputs outputs
              props prov (IsRefresh P) (preview P \<and> \<not> IsRefresh P) (trace sg') = (Inr d, tr)"
    and some: "Changes d = DiffSome" and repl: "Replace d"
    and cbd: "\<not> DeleteBeforeReplace d"
    and recheck: "\<forall>pr. prov = Some pr \<and> \<not> IsRefresh P \<longrightarrow>
        (\<exists>ins. Provider_Check H pr (generateURN L P event) None (gProperties (Goal event))
                  (preview P \<and> \<not> IsRefresh P) = Inr (ins, []))"
  shows "\<exists>new' sg''. GenerateSteps L H P event sg =
            Returns (Inr [NewCreateReplacementStep event old new' (ReplaceKeys d) True,
                          NewReplaceStep old new' (ReplaceKeys d) True], sg'')
           \<and> replaces sg'' = (replaces sg)(generateURN L P event \<mapsto> True)
           \<and> deletes sg'' = deletes sg \<and> creates sg'' = creates sg
           \<and> updates sg'' = updates sg \<and> sames sg'' = sames sg"
proof -
  let ?u = "generateURN L P event"
  from validate_frame [OF valid] have "sets sg' = sets sg" by auto
  note fr = sets_simps [OF this]
  from GenerateSteps_valid [OF valid] dispatch_diffed [OF old ty d] some repl
  have g: "GenerateSteps L H P event sg =
      GenerateSteps_replace L H P event ?u old new prov d (sg'\<lparr>trace := tr\<rparr>)"
    by simp
  show ?thesis
  proof (cases "prov = None \<or> IsRefresh P")
    case True
    then have "GenerateSteps_replace L H P event ?u old new prov d (sg'\<lparr>trace := tr\<rparr>) =
      Returns (Inr [NewCreateReplacementStep event old new (ReplaceKeys d) True,
                    NewReplaceStep old new (ReplaceKeys d) True],
               sg'\<lparr>trace := tr, replaces := (replaces sg')(?u \<mapsto> True)\<rparr>)"
      using cbd by (auto simp: GenerateSteps_replace_def Let_def split: option.splits)
    with g fr show ?thesis by simp
  next
    case False
    then obtain pr where pr: "prov = Some pr" and nr: "\<not> IsRefresh P" by auto
    with recheck obtain ins where
      chk: "Provider_Check H pr ?u None (gProperties (Goal event)) (preview P \<and> \<not> IsRefresh P)
              = Inr (ins, [])"
      by blast
    have "GenerateSteps_replace L H P event ?u old new prov d (sg'\<lparr>trace := tr\<rparr>) =
      Returns (Inr [NewCreateReplacementStep event old (new\<lparr>Inputs := ins\<rparr>) (ReplaceKeys d) True,
                    NewReplaceStep old (new\<lparr>Inputs := ins\<rparr>) (ReplaceKeys d) True],
               sg'\<lparr>replaces := (replaces sg')(?u \<mapsto> True),
                   trace := tr @ [CallCheck pr ?u None (gProperties (Goal event))
                                    (preview P \<and> \<not> IsRefresh P)]\<rparr>)"
      using cbd pr nr chk
      by (simp add: GenerateSteps_replace_def Let_def issueCheckErrors_def)
    with g fr show ?thesis by simp
  qed
qed

text \<open>An instance of C9 as amended: \<open>D\<close> is registered with new inputs and the plugin asks to replace it.\<close>

theorem replace_create_before_delete_witness:
  "\<exists>sg''. GenerateSteps demo_library demo_host demo_plan (demo_event ''d'' (demo_props ''d2'') True)
      newStepGenerator
     = Returns (Inr [NewCreateReplacementStep (demo_event ''d'' (demo_props ''d2'') True)
                       demo_D demo_new_D [''name''] True,
                     NewReplaceStep demo_D demo_new_D [''name''] True], sg'')
     \<and> replaces sg'' = [''t::d'' \<mapsto> True] \<and> deletes sg'' = Map.empty"
proof -
  let ?e = "demo_event ''d'' (demo_props ''d2'') True"
  have old: "Olds demo_plan (generateURN demo_library demo_plan ?e) = Some demo_D"
    by (simp add: demo_urn) (simp add: demo_plan_def)
  have ty: "Type demo_D = Type demo_new_D"
    by (simp add: demo_defs demo_new_D_def NewState_def)
  have d: "diff demo_library demo_host (generateURN demo_library demo_plan ?e) (ID demo_D)
             (Inputs demo_D) (Outputs demo_D) (demo_props ''d2'') None (demo_props ''d2'')
             (Some (Plugin 7)) (IsRefresh demo_plan)
             (preview demo_plan \<and> \<not> IsRefresh demo_plan)
             (trace (demo_checked ''d'' (demo_props ''d1'') (demo_props ''d2'') newStepGenerator))
           = (Inr (demo_replacement False), trace (demo_diffed ''d'' ''cbd'' (demo_props ''d1'') (demo_props ''d2'')))"
    by (simp add: demo_urn) (simp add: model_defs demo_defs demo_diffed_def demo_checked_def)
  have some: "Changes (demo_replacement False) = DiffSome"
    and repl: "Replace (demo_replacement False)"
    and cbd: "\<not> DeleteBeforeReplace (demo_replacement False)"
    and keys: "ReplaceKeys (demo_replacement False) = [''name'']"
    by (simp_all add: demo_replacement_def Replace_def)
  have recheck: "\<forall>pr. Some (Plugin 7) = Some pr \<and> \<not> IsRefresh demo_plan \<longrightarrow>
        (\<exists>ins. Provider_Check demo_host pr (generateURN demo_library demo_plan ?e) None
                  (gProperties (Goal ?e)) (preview demo_plan \<and> \<not> IsRefresh demo_plan)
                = Inr (ins, []))"
    by (simp add: Provider_Check_def demo_defs index_def entries_def)
  from replace_create_before_delete [OF demo_validate_D old ty d some repl cbd recheck]
  obtain new' sg'' where r:
    "GenerateSteps demo_library demo_host demo_plan ?e newStepGenerator =
       Returns (Inr [NewCreateReplacementStep ?e demo_D new' (ReplaceKeys (demo_replacement False)) True,
                     NewReplaceStep demo_D new' (ReplaceKeys (demo_replacement False)) True], sg'')"
    "replaces sg'' = (replaces newStepGenerator)(generateURN demo_library demo_plan ?e \<mapsto> True)"
    "deletes sg'' = deletes newStepGenerator"
    by blast
  have "GenerateSteps demo_library demo_host demo_plan ?e newStepGenerator =
       Returns (Inr [NewCreateReplacementStep ?e demo_D demo_new_D [''name''] True,
                     NewReplaceStep demo_D demo_new_D [''name''] True],
                (demo_diffed ''d'' ''cbd'' (demo_props ''d1'') (demo_props ''d2''))
                  \<lparr>replaces := [''t::d'' \<mapsto> True],
                   trace := trace (demo_diffed ''d'' ''cbd'' (demo_props ''d1'') (demo_props ''d2''))
                     @ [CallCheck (Plugin 7) ''t::d'' None (demo_props ''d2'') False]\<rparr>)"
    by (simp add: model_defs demo_defs demo_new_D_def demo_checked_def demo_diffed_def)
  with r show ?thesis by (simp add: demo_urn newStepGenerator_def)
qed

section \<open>GenerateDeletes: proofs\<close>

lemma loop_acc:
  "GenerateDeletes_loop rs (dels, sg) =
     (dels @ fst (GenerateDeletes_loop rs ([], sg)), snd (GenerateDeletes_loop rs ([], sg)))"
proof (induction rs arbitrary: dels sg)
  case Nil
  then show ?case by simp
next
  case (Cons res rs)
  show ?case
    using Cons.IH [of "dels @ [NewDeleteReplacementStep res True]"]
          Cons.IH [of "[NewDeleteReplacementStep res True]"]
          Cons.IH [of "dels @ [NewDeleteStep res]"]
          Cons.IH [of "[NewDeleteStep res]"] Cons.IH [of dels]
    by simp
qed

lemma loop_append:
  "GenerateDeletes_loop (xs @ ys) acc = GenerateDeletes_loop ys (GenerateDeletes_loop xs acc)"
proof (induction xs arbitrary: acc)
  case Nil
  then show ?case by simp
next
  case (Cons x xs)
  obtain dels sg where acc: "acc = (dels, sg)" by (cases acc)
  show ?case unfolding acc using Cons.IH by simp
qed

lemma loop_Cons:
  "fst (GenerateDeletes_loop (res # rest) ([], sg)) =
     (if Delete res then
        NewDeleteReplacementStep res True
          # fst (GenerateDeletes_loop rest ([], sg\<lparr>deletes := (deletes sg)(URN res \<mapsto> True)\<rparr>))
      else if \<not> flag (sames sg) (URN res) \<and> \<not> flag (updates sg) (URN res)
              \<and> \<not> flag (replaces sg) (URN res) \<and> \<not> flag (deletes sg) (URN res) then
        NewDeleteStep res
          # fst (GenerateDeletes_loop rest ([], sg\<lparr>deletes := (deletes sg)(URN res \<mapsto> True)\<rparr>))
      else fst (GenerateDeletes_loop rest ([], sg)))"
  using loop_acc [of rest "[NewDeleteReplacementStep res True]"]
        loop_acc [of rest "[NewDeleteStep res]"]
  by simp

lemma loop_frame:
  "sames (snd (GenerateDeletes_loop rs (dels, sg))) = sames sg
   \<and> updates (snd (GenerateDeletes_loop rs (dels, sg))) = updates sg
   \<and> replaces (snd (GenerateDeletes_loop rs (dels, sg))) = replaces sg
   \<and> creates (snd (GenerateDeletes_loop rs (dels, sg))) = creates sg
   \<and> urns (snd (GenerateDeletes_loop rs (dels, sg))) = urns sg"
  by (induction rs arbitrary: dels sg) simp_all

lemma loop_deletes_other:
  "u \<notin> URN ` set rs \<Longrightarrow>
   deletes (snd (GenerateDeletes_loop rs (dels, sg))) u = deletes sg u"
  by (induction rs arbitrary: dels sg) auto

lemma loop_order:
  "subseq (map deleted_resource (fst (GenerateDeletes_loop rs ([], sg)))) (map Some rs)"
proof (induction rs arbitrary: sg)
  case Nil
  then show ?case by simp
next
  case (Cons res rs)
  show ?case
    unfolding loop_Cons using Cons.IH by (auto simp del: GenerateDeletes_loop.simps)
qed

lemma loop_delete_steps:
  "NewDeleteStep r \<in> set (fst (GenerateDeletes_loop rs ([], sg))) \<Longrightarrow>
     r \<in> set rs \<and> \<not> Delete r \<and> \<not> flag (sames sg) (URN r) \<and> \<not> flag (updates sg) (URN r)
     \<and> \<not> flag (replaces sg) (URN r) \<and> \<not> flag (deletes sg) (URN r)"
proof (induction rs arbitrary: sg)
  case Nil
  then show ?case by simp
next
  case (Cons res rs)
  let ?sg' = "sg\<lparr>deletes := (deletes sg)(URN res \<mapsto> True)\<rparr>"
  have weaker: "\<not> flag (deletes ?sg') (URN r) \<Longrightarrow> \<not> flag (deletes sg) (URN r)"
    by (auto simp: flag_def split: if_splits)
  from Cons.prems consider
      (here) "r = res" "\<not> Delete res"
        "\<not> flag (sames sg) (URN res) \<and> \<not> flag (updates sg) (URN res)
          \<and> \<not> flag (replaces sg) (URN res) \<and> \<not> flag (deletes sg) (URN res)"
    | (later') "NewDeleteStep r \<in> set (fst (GenerateDeletes_loop rs ([], ?sg')))"
    | (later) "NewDeleteStep r \<in> set (fst (GenerateDeletes_loop rs ([], sg)))"
    unfolding loop_Cons by (auto split: if_splits)
  then show ?case
  proof cases
    case here
    then show ?thesis by simp
  next
    case later'
    from Cons.IH [OF later'] show ?thesis by (auto simp: flag_def split: if_splits)
  next
    case later
    from Cons.IH [OF later] show ?thesis by simp
  qed
qed

text \<open>
  What \<open>GenerateDeletes\<close> does give. Let the snapshot hold \<open>Y\<close>, live and in none of \<open>sames\<close>,
  \<open>updates\<close>, \<open>replaces\<close>, \<open>deletes\<close>, with no resource of the same URN stored after it, and
  \<open>X\<close> whose URN is in \<open>sames\<close>. Then there is exactly one Delete step for \<open>Y\<close> and none for
  \<open>X\<close>; the resources of the returned steps are in the reverse of the snapshot's order; and
  a resource whose URN is in \<open>sames\<close>, \<open>updates\<close> or \<open>replaces\<close> gets no Delete step.
\<close>

theorem deletes_for_unregistered:
  assumes snapshot: "prev P = Some (before @ Y # after)"
    and last_of_urn: "URN Y \<notin> URN ` set after"
    and live: "\<not> Delete Y"
    and unclassified: "\<not> flag (sames sg) (URN Y)" "\<not> flag (updates sg) (URN Y)"
      "\<not> flag (replaces sg) (URN Y)" "\<not> flag (deletes sg) (URN Y)"
    and X: "X \<in> set (before @ Y # after)" "flag (sames sg) (URN X)"
  shows "count_list (fst (GenerateDeletes P sg)) (NewDeleteStep Y) = 1
       \<and> NewDeleteStep X \<notin> set (fst (GenerateDeletes P sg))
       \<and> subseq (map deleted_resource (fst (GenerateDeletes P sg)))
                 (map Some (rev (before @ Y # after)))
       \<and> (\<forall>res. NewDeleteStep res \<in> set (fst (GenerateDeletes P sg)) \<longrightarrow>
             \<not> flag (sames sg) (URN res) \<and> \<not> flag (updates sg) (URN res)
             \<and> \<not> flag (replaces sg) (URN res))"
proof -
  let ?E = "\<lambda>rs s. fst (GenerateDeletes_loop rs ([], s))"
  let ?S = "\<lambda>rs s. snd (GenerateDeletes_loop rs ([], s))"
  let ?rs = "rev (before @ Y # after)"
  have gd: "fst (GenerateDeletes P sg) = ?E ?rs sg"
    using snapshot by (simp add: GenerateDeletes_def)
  let ?sg1 = "?S (rev after) sg"
  let ?sg2 = "?sg1\<lparr>deletes := (deletes ?sg1)(URN Y \<mapsto> True)\<rparr>"
  have split: "?E ?rs sg = ?E (rev after) sg @ ?E (Y # rev before) ?sg1"
  proof -
    have "GenerateDeletes_loop ?rs ([], sg)
        = GenerateDeletes_loop (Y # rev before) (GenerateDeletes_loop (rev after) ([], sg))"
      using loop_append [of "rev after" "Y # rev before" "([], sg)"] by simp
    also have "\<dots> = GenerateDeletes_loop (Y # rev before) (?E (rev after) sg, ?sg1)"
      by simp
    finally show ?thesis
      using loop_acc [of "Y # rev before" "?E (rev after) sg" ?sg1] by simp
  qed
  from last_of_urn have "deletes ?sg1 (URN Y) = deletes sg (URN Y)"
    using loop_deletes_other [of "URN Y" "rev after" "[]" sg] by simp
  with unclassified(4) have d1: "\<not> flag (deletes ?sg1) (URN Y)" by (simp add: flag_def)
  from loop_frame [of "rev after" "[]" sg] unclassified
  have s1: "\<not> flag (sames ?sg1) (URN Y)" "\<not> flag (updates ?sg1) (URN Y)"
    "\<not> flag (replaces ?sg1) (URN Y)"
    by simp_all
  from live d1 s1 have here: "?E (Y # rev before) ?sg1 = NewDeleteStep Y # ?E (rev before) ?sg2"
    by (simp only: loop_Cons if_True if_False simp_thms)
  have none_after: "NewDeleteStep Y \<notin> set (?E (rev after) sg)"
    using loop_delete_steps [of Y "rev after" sg] last_of_urn by auto
  have "flag (deletes ?sg2) (URN Y)" by (simp add: flag_def)
  then have none_before: "NewDeleteStep Y \<notin> set (?E (rev before) ?sg2)"
    using loop_delete_steps [of Y "rev before" ?sg2] by blast
  from none_after none_before
  have "count_list (?E (rev after) sg @ NewDeleteStep Y # ?E (rev before) ?sg2) (NewDeleteStep Y) = 1"
    by (simp add: count_list_0_iff)
  with split here gd have c: "count_list (fst (GenerateDeletes P sg)) (NewDeleteStep Y) = 1"
    by simp
  from X(2) have x: "NewDeleteStep X \<notin> set (fst (GenerateDeletes P sg))"
    unfolding gd using loop_delete_steps [of X ?rs sg] by blast
  have o: "subseq (map deleted_resource (fst (GenerateDeletes P sg))) (map Some ?rs)"
    unfolding gd by (rule loop_order)
  have r: "\<forall>res. NewDeleteStep res \<in> set (fst (GenerateDeletes P sg)) \<longrightarrow>
             \<not> flag (sames sg) (URN res) \<and> \<not> flag (updates sg) (URN res)
             \<and> \<not> flag (replaces sg) (URN res)"
    unfolding gd using loop_delete_steps [of _ ?rs sg] by blast
  from c x o r show ?thesis by blast
qed

text \<open>An instance: the snapshot holds \<open>X\<close> and \<open>Y\<close> only.\<close>

theorem deletes_for_unregistered_witness:
  "fst (GenerateDeletes (demo_plan\<lparr>prev := Some [demo_X, demo_Y]\<rparr>) demo_sg_X)
       = [NewDeleteStep demo_Y]
   \<and> count_list (fst (GenerateDeletes (demo_plan\<lparr>prev := Some [demo_X, demo_Y]\<rparr>) demo_sg_X))
        (NewDeleteStep demo_Y) = 1
   \<and> NewDeleteStep demo_X
        \<notin> set (fst (GenerateDeletes (demo_plan\<lparr>prev := Some [demo_X, demo_Y]\<rparr>) demo_sg_X))"
proof -
  have snapshot: "prev (demo_plan\<lparr>prev := Some [demo_X, demo_Y]\<rparr>) = Some ([demo_X] @ demo_Y # [])"
    by simp
  have last_of_urn: "URN demo_Y \<notin> URN ` set []" by simp
  have live: "\<not> Delete demo_Y" by (simp add: demo_del_defs)
  have unclassified: "\<not> flag (sames demo_sg_X) (URN demo_Y)"
    "\<not> flag (updates demo_sg_X) (URN demo_Y)" "\<not> flag (replaces demo_sg_X) (URN demo_Y)"
    "\<not> flag (deletes demo_sg_X) (URN demo_Y)"
    by (simp_all add: demo_del_defs)
  have X: "demo_X \<in> set ([demo_X] @ demo_Y # [])" "flag (sames demo_sg_X) (URN demo_X)"
    by (simp_all add: demo_del_defs)
  have "fst (GenerateDeletes (demo_plan\<lparr>prev := Some [demo_X, demo_Y]\<rparr>) demo_sg_X)
       = [NewDeleteStep demo_Y]"
    by (simp add: demo_del_defs)
  with deletes_for_unregistered [OF snapshot last_of_urn live unclassified X]
  show ?thesis by blast
qed

text \<open>
  Claim C5 says that a resource \<open>Y\<close> of the snapshot that is not registered again, is not
  pending delete and is in none of the sets gets exactly one Delete step, that the re-registered
  \<open>X\<close> gets none, and that the steps come in the reverse of the snapshot's order. Here the
  snapshot holds \<open>X\<close> (under \<open>sames\<close>), \<open>Y\<close> (live, in no set) and, stored after it, a
  pending-delete copy of \<open>Y\<close>. The walk meets the copy first and marks the URN deleted; the
  test \<open>!sg.deletes[res.URN]\<close> then passes \<open>Y\<close> by: \<open>Y\<close> gets no Delete step. The comment
  in the code calls this a bug.
\<close>

theorem deletes_counterexample:
  "\<not> Delete demo_Y
   \<and> \<not> flag (sames demo_sg_X) (URN demo_Y) \<and> \<not> flag (updates demo_sg_X) (URN demo_Y)
   \<and> \<not> flag (replaces demo_sg_X) (URN demo_Y) \<and> \<not> flag (deletes demo_sg_X) (URN demo_Y)
   \<and> \<not> flag (creates demo_sg_X) (URN demo_Y)
   \<and> flag (sames demo_sg_X) (URN demo_X)
   \<and> fst (GenerateDeletes (demo_plan\<lparr>prev := Some [demo_X, demo_Y, demo_Y_pending]\<rparr>) demo_sg_X)
       = [NewDeleteReplacementStep demo_Y_pending True]
   \<and> count_list
        (fst (GenerateDeletes (demo_plan\<lparr>prev := Some [demo_X, demo_Y, demo_Y_pending]\<rparr>) demo_sg_X))
        (NewDeleteStep demo_Y) = 0"
proof (intro conjI)
  show "fst (GenerateDeletes (demo_plan\<lparr>prev := Some [demo_X, demo_Y, demo_Y_pending]\<rparr>) demo_sg_X)
       = [NewDeleteReplacementStep demo_Y_pending True]"
    by (simp add: demo_del_defs)
  then show "count_list
        (fst (GenerateDeletes (demo_plan\<lparr>prev := Some [demo_X, demo_Y, demo_Y_pending]\<rparr>) demo_sg_X))
        (NewDeleteStep demo_Y) = 0"
    by simp
qed (simp_all add: demo_del_defs)

end
